theory Spec2Isabelle
  imports Complex_Main
begin

section \<open>Values of the program\<close>

text \<open>
  The script \<^verbatim>\<open>export-events.py\<close> works on what \<^verbatim>\<open>json.loads\<close> returns: \<^verbatim>\<open>None\<close>,
  booleans, unbounded integers, floats, strings, lists and dicts. A Python \<^verbatim>\<open>dict\<close> keeps
  its keys in insertion order and holds one value per key, so a dict is an association
  list that is read by the first binding of a key and written by \<open>dict_set\<close>, which
  replaces the binding in place or appends a new one.

  A float is an IEEE double: a finite value (its exact real value), an infinity or a NaN.
\<close>

datatype pyfloat = Finite real | PosInf | NegInf | NaN

datatype json =
    JNull
  | JBool bool
  | JInt int
  | JFloat pyfloat
  | JStr string
  | JArr "json list"
  | JObj "(string \<times> json) list"

type_synonym pydict = "(string \<times> json) list"

text \<open>The exceptions the script can meet. \<open>SystemExit\<close> is what \<^verbatim>\<open>sys.exit\<close> raises.\<close>

datatype exn =
    CalledProcessError
  | JSONDecodeError
  | ValueError
  | TypeError
  | AttributeError
  | OSError
  | RecursionError
  | UnicodeDecodeError
  | OtherException string
  | SystemExit int
  | KeyboardInterrupt

text \<open>\<^verbatim>\<open>except Exception\<close> catches everything but the exceptions that leave the
  \<^verbatim>\<open>Exception\<close> hierarchy.\<close>

fun is_Exception :: "exn \<Rightarrow> bool" where
  "is_Exception (SystemExit _) = False"
| "is_Exception KeyboardInterrupt = False"
| "is_Exception _ = True"

text \<open>The warnings and errors the script logs, one constructor for each logging call
  with the values its message is formatted from. The \<^verbatim>\<open>logger.info\<close> lines (counts and
  progress) and the errors logged right before \<^verbatim>\<open>sys.exit\<close> are left out.\<close>

datatype log_entry =
    WarnCouldNotExtract string
  | WarnInvalidJSON string
  | WarnDatetimeParse string string
  | WarnHtmlNotFound string
  | ErrHtmlParse string
  | WarnInvalidGPS string

subsection \<open>Dicts\<close>

definition dict_get :: "(string \<times> 'v) list \<Rightarrow> string \<Rightarrow> 'v option" where
  "dict_get d k = map_of d k"

text \<open>\<^verbatim>\<open>d.get(k, default)\<close>\<close>

definition get_default :: "(string \<times> 'v) list \<Rightarrow> string \<Rightarrow> 'v \<Rightarrow> 'v" where
  "get_default d k dflt = (case dict_get d k of None \<Rightarrow> dflt | Some v \<Rightarrow> v)"

text \<open>\<^verbatim>\<open>k in d\<close>\<close>

definition has_key :: "(string \<times> 'v) list \<Rightarrow> string \<Rightarrow> bool" where
  "has_key d k = (dict_get d k \<noteq> None)"

text \<open>\<^verbatim>\<open>d[k] = v\<close>\<close>

fun dict_set :: "string \<Rightarrow> 'v \<Rightarrow> (string \<times> 'v) list \<Rightarrow> (string \<times> 'v) list" where
  "dict_set k v [] = [(k, v)]"
| "dict_set k v ((k', v') # d) =
     (if k' = k then (k, v) # d else (k', v') # dict_set k v d)"

text \<open>\<^verbatim>\<open>d.update(other)\<close>: the items of \<open>other\<close> are written in their order.\<close>

fun dict_update :: "(string \<times> 'v) list \<Rightarrow> (string \<times> 'v) list \<Rightarrow> (string \<times> 'v) list" where
  "dict_update d [] = d"
| "dict_update d ((k, v) # other) = dict_update (dict_set k v d) other"

subsection \<open>Truth values and \<^verbatim>\<open>str()\<close>\<close>

text \<open>Python's truth value of a JSON value: \<^verbatim>\<open>None\<close>, \<^verbatim>\<open>False\<close>, zero and the empty
  string, list and dict are false; a NaN is true.\<close>

fun truthy :: "json \<Rightarrow> bool" where
  "truthy JNull = False"
| "truthy (JBool b) = b"
| "truthy (JInt i) = (i \<noteq> 0)"
| "truthy (JFloat (Finite r)) = (r \<noteq> 0)"
| "truthy (JFloat _) = True"
| "truthy (JStr s) = (s \<noteq> [])"
| "truthy (JArr xs) = (xs \<noteq> [])"
| "truthy (JObj d) = (d \<noteq> [])"

definition digit_char :: "nat \<Rightarrow> char" where
  "digit_char n = char_of (48 + n)"

fun nat_digits :: "nat \<Rightarrow> string" where
  "nat_digits n =
     (if n < 10 then [digit_char n] else nat_digits (n div 10) @ [digit_char (n mod 10)])"

declare nat_digits.simps [simp del]

definition int_str :: "int \<Rightarrow> string" where
  "int_str i = (if i < 0 then CHR ''-'' # nat_digits (nat (- i)) else nat_digits (nat i))"

section \<open>The world outside the script\<close>

text \<open>
  The script reads its input through library calls: \<^verbatim>\<open>git log\<close> and \<^verbatim>\<open>git show\<close> run by
  \<^verbatim>\<open>subprocess.run\<close>, \<^verbatim>\<open>json.loads\<close>, \<^verbatim>\<open>datetime.fromisoformat\<close>, \<^verbatim>\<open>float\<close>, the files
  of the HTML directory and lxml. None of them is code of the repository, so they are
  parameters of the model, collected in one record. A library call that raises returns
  \<open>Inl\<close> of the exception.
\<close>

text \<open>An aware \<^verbatim>\<open>datetime\<close> carries the offset of its fixed time zone from UTC, in
  microseconds; a naive one carries none.\<close>

record datetime =
  year :: int
  month :: int
  day :: int
  hour :: int
  minute :: int
  second :: int
  microsecond :: int
  utcoffset :: "int option"

text \<open>An element of a parsed HTML document, as far as the script looks at it: its
  \<^verbatim>\<open>text_content()\<close>, its attributes, and what \<^verbatim>\<open>cssselect\<close> returns for a selector.\<close>

datatype element =
  Element (text_content: string) (attrib: "(string \<times> string) list")
    (selections: "(string \<times> element list) list")

text \<open>A path \<^verbatim>\<open>html_dir / name\<close> is the pair of the directory and the name.
  \<^verbatim>\<open>Path.exists()\<close> answers, or raises the \<^verbatim>\<open>OSError\<close> of the underlying \<^verbatim>\<open>stat\<close> when that
  is not one of the errors it takes for a missing file (a name that is too long, a
  directory that may not be searched).\<close>

type_synonym path = "string \<times> string"

record world =
  git_log :: "exn + string"
  git_show :: "string \<Rightarrow> exn + string"
  json_loads :: "string \<Rightarrow> exn + json"
  fromisoformat :: "string \<Rightarrow> datetime option"
  py_float :: "string \<Rightarrow> pyfloat option"
  py_repr :: "json \<Rightarrow> string"
  path_exists :: "path \<Rightarrow> exn + bool"
  read_text :: "path \<Rightarrow> exn + string"
  fromstring :: "string \<Rightarrow> exn + element"

text \<open>\<^verbatim>\<open>str(v)\<close>: a string is itself, an integer its decimal digits; the text of a
  float, a list or a dict is the library's (\<open>py_repr\<close>).\<close>

fun py_str :: "world \<Rightarrow> json \<Rightarrow> string" where
  "py_str w JNull = ''None''"
| "py_str w (JBool b) = (if b then ''True'' else ''False'')"
| "py_str w (JInt i) = int_str i"
| "py_str w (JStr s) = s"
| "py_str w v = py_repr w v"

section \<open>Strings\<close>

text \<open>\<^verbatim>\<open>s.split(c)\<close> for a one-character separator: never empty, one more part than
  separators.\<close>

fun split_on :: "char \<Rightarrow> string \<Rightarrow> string list" where
  "split_on c [] = [[]]"
| "split_on c (x # xs) =
     (if x = c then [] # split_on c xs
      else (x # hd (split_on c xs)) # tl (split_on c xs))"

text \<open>The characters for which \<^verbatim>\<open>str.isspace\<close> holds, among the first 256.\<close>

definition is_space :: "char \<Rightarrow> bool" where
  "is_space c = (of_char c \<in> {9, 10, 11, 12, 13, 28, 29, 30, 31, 32, 133, 160 :: nat})"

definition strip :: "string \<Rightarrow> string" where
  "strip s = rev (dropWhile is_space (rev (dropWhile is_space s)))"

fun join :: "string \<Rightarrow> string list \<Rightarrow> string" where
  "join sep [] = []"
| "join sep [x] = x"
| "join sep (x # y # ys) = x @ sep @ join sep (y # ys)"

section \<open>parse_gps_string\<close>

text \<open>IEEE comparison: every comparison with a NaN is false.\<close>

fun float_le :: "pyfloat \<Rightarrow> pyfloat \<Rightarrow> bool" where
  "float_le NaN _ = False"
| "float_le _ NaN = False"
| "float_le NegInf _ = True"
| "float_le _ PosInf = True"
| "float_le (Finite a) (Finite b) = (a \<le> b)"
| "float_le _ _ = False"

text \<open>
  \<^verbatim>\<open>parse_gps_string(gps_str)\<close>. The caller passes whatever the record holds under
  \<^verbatim>\<open>gps\<close>, so the argument is any JSON value: \<^verbatim>\<open>',' not in gps_str\<close> raises
  \<^verbatim>\<open>TypeError\<close> on a number or a boolean and is a membership test on a list or a dict,
  which have no \<^verbatim>\<open>split\<close>.
\<close>

definition parse_gps_str :: "world \<Rightarrow> string \<Rightarrow> exn + (pyfloat \<times> pyfloat)" where
  "parse_gps_str w gps_str =
     (if gps_str = [] \<or> CHR '','' \<notin> set gps_str then Inl ValueError
      else
        let parts = split_on CHR '','' gps_str in
        if length parts \<noteq> 2 then Inl ValueError
        else
          case py_float w (strip (parts ! 0)) of
            None \<Rightarrow> Inl ValueError
          | Some lat \<Rightarrow>
              (case py_float w (strip (parts ! 1)) of
                 None \<Rightarrow> Inl ValueError
               | Some lon \<Rightarrow>
                   if \<not> (float_le (Finite 55) lat \<and> float_le lat (Finite 70)) then Inl ValueError
                   else if \<not> (float_le (Finite 10) lon \<and> float_le lon (Finite 25)) then Inl ValueError
                   else Inr (lat, lon)))"

fun parse_gps_string :: "world \<Rightarrow> json \<Rightarrow> exn + (pyfloat \<times> pyfloat)" where
  "parse_gps_string w (JStr s) = parse_gps_str w s"
| "parse_gps_string w (JArr xs) =
     (if xs = [] \<or> JStr '','' \<notin> set xs then Inl ValueError else Inl AttributeError)"
| "parse_gps_string w (JObj d) =
     (if d = [] \<or> \<not> has_key d '','' then Inl ValueError else Inl AttributeError)"
| "parse_gps_string w v = (if \<not> truthy v then Inl ValueError else Inl TypeError)"


section \<open>extract_html_data\<close>

definition cssselect :: "element \<Rightarrow> string \<Rightarrow> element list" where
  "cssselect e sel = (case map_of (selections e) sel of None \<Rightarrow> [] | Some es \<Rightarrow> es)"

text \<open>\<^verbatim>\<open>elems[0].text_content().strip() if elems else None\<close>\<close>

definition first_text :: "element list \<Rightarrow> json" where
  "first_text elems = (case elems of [] \<Rightarrow> JNull | e # _ \<Rightarrow> JStr (strip (text_content e)))"

definition extract_html_data :: "world \<Rightarrow> path \<Rightarrow> exn + pydict" where
  "extract_html_data w html_path =
     (case read_text w html_path of
        Inl e \<Rightarrow> Inl e
      | Inr html_content \<Rightarrow>
          (case fromstring w html_content of
             Inl e \<Rightarrow> Inl e
           | Inr tree \<Rightarrow>
               (case cssselect tree ''.event-page.editorial-content'' of
                  [] \<Rightarrow> Inl ValueError
                | event_div # _ \<Rightarrow>
                    let html_title = first_text (cssselect event_div ''h1'');
                        html_preamble = first_text (cssselect event_div ''p.preamble'');
                        html_body =
                          (case cssselect event_div ''.text-body.editorial-html'' of
                             [] \<Rightarrow> JNull
                           | body # _ \<Rightarrow>
                               JStr (join [CHR 0x0A]
                                 (map (\<lambda>p. strip (text_content p)) (cssselect body ''p''))));
                        html_published_datetime =
                          (case cssselect event_div ''time.date'' of
                             [] \<Rightarrow> JNull
                           | t # _ \<Rightarrow>
                               (case map_of (attrib t) ''datetime'' of
                                  None \<Rightarrow> JNull
                                | Some v \<Rightarrow> if v = [] then JNull else JStr v));
                        author_elem = cssselect event_div ''.published-container span'';
                        html_author =
                          (if author_elem \<noteq> [] \<and> length author_elem > 1
                           then JStr (strip (text_content (author_elem ! 1))) else JNull)
                    in Inr [(''html_title'', html_title),
                            (''html_preamble'', html_preamble),
                            (''html_body'', html_body),
                            (''html_published_datetime'', html_published_datetime),
                            (''html_author'', html_author),
                            (''html_available'', JBool True)])))"

section \<open>get_all_commits and extract_events_from_commit\<close>

text \<open>A line with a \<^verbatim>\<open>|\<close> is split at the first one (\<^verbatim>\<open>line.split('|', 1)\<close>). A failing
  \<^verbatim>\<open>git log\<close> ends the run with \<^verbatim>\<open>sys.exit(1)\<close>.\<close>

definition get_all_commits :: "world \<Rightarrow> exn + (string \<times> string) list" where
  "get_all_commits w =
     (case git_log w of
        Inl e \<Rightarrow> if e = CalledProcessError then Inl (SystemExit 1) else Inl e
      | Inr stdout \<Rightarrow>
          Inr (map (\<lambda>line. (takeWhile (\<lambda>c. c \<noteq> CHR ''|'') line,
                            tl (dropWhile (\<lambda>c. c \<noteq> CHR ''|'') line)))
                (filter (\<lambda>line. CHR ''|'' \<in> set line) (split_on (CHR 0x0A) (strip stdout)))))"

definition extract_events_from_commit :: "world \<Rightarrow> string \<Rightarrow> exn + (json list \<times> log_entry list)" where
  "extract_events_from_commit w commit_sha =
     (case git_show w commit_sha of
        Inl e \<Rightarrow>
          if e = CalledProcessError then Inr ([], [WarnCouldNotExtract (take 8 commit_sha)])
          else Inl e
      | Inr stdout \<Rightarrow>
          (case json_loads w stdout of
             Inl e \<Rightarrow>
               if e = JSONDecodeError then Inr ([], [WarnInvalidJSON (take 8 commit_sha)])
               else Inl e
           | Inr events \<Rightarrow>
               (case events of JArr evs \<Rightarrow> Inr (evs, []) | _ \<Rightarrow> Inr ([], []))))"

section \<open>extract_all_events\<close>

type_synonym events = "(string \<times> pydict) list"

text \<open>The identity of a record: \<^verbatim>\<open>str(event.get('id', ''))\<close>.\<close>

definition event_identity :: "world \<Rightarrow> pydict \<Rightarrow> string" where
  "event_identity w event = py_str w (get_default event ''id'' (JStr ''''))"

text \<open>The body of the inner loop: \<^verbatim>\<open>event.get\<close> exists on a dict only.\<close>

definition merge_event :: "world \<Rightarrow> events \<Rightarrow> json \<Rightarrow> exn + events" where
  "merge_event w events_by_id event =
     (case event of
        JObj d \<Rightarrow>
          let event_id = event_identity w d in
          if event_id = [] then Inr events_by_id
          else Inr (dict_set event_id d events_by_id)
      | _ \<Rightarrow> Inl AttributeError)"

fun merge_events :: "world \<Rightarrow> events \<Rightarrow> json list \<Rightarrow> exn + events" where
  "merge_events w events_by_id [] = Inr events_by_id"
| "merge_events w events_by_id (event # rest) =
     (case merge_event w events_by_id event of
        Inl e \<Rightarrow> Inl e
      | Inr events_by_id' \<Rightarrow> merge_events w events_by_id' rest)"

text \<open>The loop over the commits, oldest first.\<close>

fun merge_commits ::
  "world \<Rightarrow> events \<Rightarrow> log_entry list \<Rightarrow> (string \<times> string) list \<Rightarrow> exn + (events \<times> log_entry list)" where
  "merge_commits w events_by_id lg [] = Inr (events_by_id, lg)"
| "merge_commits w events_by_id lg ((commit_sha, commit_date) # rest) =
     (case extract_events_from_commit w commit_sha of
        Inl e \<Rightarrow> Inl e
      | Inr (evs, lg') \<Rightarrow>
          (case merge_events w events_by_id evs of
             Inl e \<Rightarrow> Inl e
           | Inr events_by_id' \<Rightarrow> merge_commits w events_by_id' (lg @ lg') rest))"

subsection \<open>Comparing datetimes\<close>

definition is_leap :: "int \<Rightarrow> bool" where
  "is_leap y = (y mod 4 = 0 \<and> (y mod 100 \<noteq> 0 \<or> y mod 400 = 0))"

definition days_before_year :: "int \<Rightarrow> int" where
  "days_before_year y = (y - 1) * 365 + (y - 1) div 4 - (y - 1) div 100 + (y - 1) div 400"

definition days_before_month :: "int \<Rightarrow> int \<Rightarrow> int" where
  "days_before_month y m =
     sum_list (take (nat (m - 1)) [31, 28, 31, 30, 31, 30, 31, 31, 30, 31, 30, 31])
     + (if m > 2 \<and> is_leap y then 1 else 0)"

definition toordinal :: "datetime \<Rightarrow> int" where
  "toordinal dt = days_before_year (year dt) + days_before_month (year dt) (month dt) + day dt"

text \<open>Microseconds since the start of day 0 of the calendar, on the datetime's own clock.\<close>

definition local_micros :: "datetime \<Rightarrow> int" where
  "local_micros dt =
     (((toordinal dt * 24 + hour dt) * 60 + minute dt) * 60 + second dt) * 1000000
     + microsecond dt"

definition fields :: "datetime \<Rightarrow> int list" where
  "fields dt = [year dt, month dt, day dt, hour dt, minute dt, second dt, microsecond dt]"

fun lex_lt :: "int list \<Rightarrow> int list \<Rightarrow> bool" where
  "lex_lt _ [] = False"
| "lex_lt [] (y # ys) = True"
| "lex_lt (x # xs) (y # ys) = (x < y \<or> (x = y \<and> lex_lt xs ys))"

text \<open>
  \<^verbatim>\<open>a < b\<close> on datetimes: two naive ones, or two with the same offset, compare by their
  fields; two aware ones by their instants; a naive one against an aware one raises
  \<^verbatim>\<open>TypeError\<close>.
\<close>

definition datetime_lt :: "datetime \<Rightarrow> datetime \<Rightarrow> exn + bool" where
  "datetime_lt a b =
     (case (utcoffset a, utcoffset b) of
        (None, None) \<Rightarrow> Inr (lex_lt (fields a) (fields b))
      | (Some oa, Some ob) \<Rightarrow>
          if oa = ob then Inr (lex_lt (fields a) (fields b))
          else Inr (local_micros a - oa < local_micros b - ob)
      | _ \<Rightarrow> Inl TypeError)"

subsection \<open>The date filter\<close>

text \<open>The body of the \<^verbatim>\<open>try\<close>: \<open>Inr True\<close> when the record is stored, \<open>Inr False\<close> when a
  \<^verbatim>\<open>continue\<close> skips it. \<^verbatim>\<open>datetime.fromisoformat\<close> raises \<^verbatim>\<open>TypeError\<close> on an argument
  that is not a string. \<^verbatim>\<open>event_dt > end_date\<close> is \<^verbatim>\<open>end_date < event_dt\<close>.\<close>

definition in_date_range ::
  "world \<Rightarrow> datetime option \<Rightarrow> datetime option \<Rightarrow> json \<Rightarrow> exn + bool" where
  "in_date_range w start_date end_date event_datetime_str =
     (case event_datetime_str of
        JStr s \<Rightarrow>
          (case fromisoformat w s of
             None \<Rightarrow> Inl ValueError
           | Some event_dt \<Rightarrow>
               (case (case start_date of None \<Rightarrow> Inr False
                      | Some sd \<Rightarrow> datetime_lt event_dt sd) of
                  Inl e \<Rightarrow> Inl e
                | Inr before \<Rightarrow>
                    if before then Inr False
                    else
                      (case (case end_date of None \<Rightarrow> Inr False
                             | Some ed \<Rightarrow> datetime_lt ed event_dt) of
                         Inl e \<Rightarrow> Inl e
                       | Inr after \<Rightarrow> if after then Inr False else Inr True)))
      | _ \<Rightarrow> Inl TypeError)"

fun filter_events ::
  "world \<Rightarrow> datetime option \<Rightarrow> datetime option \<Rightarrow> events \<Rightarrow> events \<Rightarrow> log_entry list
     \<Rightarrow> exn + (events \<times> log_entry list)" where
  "filter_events w start_date end_date [] filtered lg = Inr (filtered, lg)"
| "filter_events w start_date end_date ((event_id, event) # rest) filtered lg =
     (let event_datetime_str = get_default event ''datetime'' (JStr '''') in
      if \<not> truthy event_datetime_str
      then filter_events w start_date end_date rest filtered lg
      else
        case in_date_range w start_date end_date event_datetime_str of
          Inl e \<Rightarrow>
            if e = ValueError
            then filter_events w start_date end_date rest filtered
                   (lg @ [WarnDatetimeParse event_id (py_str w event_datetime_str)])
            else Inl e
        | Inr keep \<Rightarrow>
            if keep
            then filter_events w start_date end_date rest (dict_set event_id event filtered) lg
            else filter_events w start_date end_date rest filtered lg)"

definition extract_all_events ::
  "world \<Rightarrow> datetime option \<Rightarrow> datetime option \<Rightarrow> exn + (events \<times> log_entry list)" where
  "extract_all_events w start_date end_date =
     (case get_all_commits w of
        Inl e \<Rightarrow> Inl e
      | Inr commits \<Rightarrow>
          (case merge_commits w [] [] commits of
             Inl e \<Rightarrow> Inl e
           | Inr (events_by_id, lg) \<Rightarrow>
               if start_date \<noteq> None \<or> end_date \<noteq> None
               then filter_events w start_date end_date events_by_id [] lg
               else Inr (events_by_id, lg)))"

section \<open>enrich_with_html\<close>

text \<open>The six assignments of the two failure branches, in their order.\<close>

definition set_unavailable :: "pydict \<Rightarrow> pydict" where
  "set_unavailable event =
     dict_set ''html_author'' JNull
       (dict_set ''html_published_datetime'' JNull
         (dict_set ''html_body'' JNull
           (dict_set ''html_preamble'' JNull
             (dict_set ''html_title'' JNull
               (dict_set ''html_available'' (JBool False) event)))))"

definition enrich_event ::
  "world \<Rightarrow> string \<Rightarrow> string \<Rightarrow> pydict \<Rightarrow> exn + (pydict \<times> log_entry list)" where
  "enrich_event w html_dir event_id event =
     (let html_path = (html_dir, event_id @ ''.html'') in
      case path_exists w html_path of
        Inl e \<Rightarrow> Inl e
      | Inr found \<Rightarrow>
          if \<not> found
          then Inr (set_unavailable event, [WarnHtmlNotFound event_id])
          else
            (case extract_html_data w html_path of
               Inr html_data \<Rightarrow> Inr (dict_update event html_data, [])
             | Inl e \<Rightarrow>
                 if is_Exception e then Inr (set_unavailable event, [ErrHtmlParse event_id])
                 else Inl e))"

text \<open>The loop mutates each record in place: the mapping keeps its keys and their order.\<close>

fun enrich_with_html :: "world \<Rightarrow> events \<Rightarrow> string \<Rightarrow> exn + (events \<times> log_entry list)" where
  "enrich_with_html w [] html_dir = Inr ([], [])"
| "enrich_with_html w ((event_id, event) # rest) html_dir =
     (case enrich_event w html_dir event_id event of
        Inl e \<Rightarrow> Inl e
      | Inr (event', lg) \<Rightarrow>
          (case enrich_with_html w rest html_dir of
             Inl e \<Rightarrow> Inl e
           | Inr (rest', lg') \<Rightarrow> Inr ((event_id, event') # rest', lg @ lg')))"

section \<open>flatten_event_for_export\<close>

text \<open>\<^verbatim>\<open>event.get(k)\<close>, with \<^verbatim>\<open>None\<close> for a missing key.\<close>

definition get_none :: "pydict \<Rightarrow> string \<Rightarrow> json" where
  "get_none d k = get_default d k JNull"

definition add_html_fields :: "pydict \<Rightarrow> pydict \<Rightarrow> pydict" where
  "add_html_fields event flattened =
     (if has_key event ''html_available''
      then
        dict_set ''html_available'' (get_default event ''html_available'' (JBool False))
          (dict_set ''html_author'' (get_none event ''html_author'')
            (dict_set ''html_published_datetime'' (get_none event ''html_published_datetime'')
              (dict_set ''html_body'' (get_none event ''html_body'')
                (dict_set ''html_preamble'' (get_none event ''html_preamble'')
                  (dict_set ''html_title'' (get_none event ''html_title'') flattened)))))
      else flattened)"

definition set_coordinates :: "json \<Rightarrow> json \<Rightarrow> pydict \<Rightarrow> pydict" where
  "set_coordinates lat lon flattened =
     dict_set ''longitude'' lon (dict_set ''latitude'' lat flattened)"

text \<open>The dict literal the function starts from.\<close>

definition flattened_base :: "world \<Rightarrow> pydict \<Rightarrow> pydict" where
  "flattened_base w event =
     [(''event_id'', JStr (py_str w (get_default event ''id'' (JStr '''')))),
      (''datetime'', get_default event ''datetime'' (JStr '''')),
      (''name'', get_default event ''name'' (JStr '''')),
      (''summary'', get_default event ''summary'' (JStr '''')),
      (''url'', get_default event ''url'' (JStr '''')),
      (''type'', get_default event ''type'' (JStr ''''))]"

text \<open>The \<^verbatim>\<open>if gps_str: try ... except ValueError ... else ...\<close> block: the values of
  \<^verbatim>\<open>latitude\<close> and \<^verbatim>\<open>longitude\<close> and the warning, or the exception that is not caught.
  \<open>event_id\<close> is \<^verbatim>\<open>flattened['event_id']\<close>.\<close>

definition gps_columns ::
  "world \<Rightarrow> string \<Rightarrow> json \<Rightarrow> exn + (json \<times> json \<times> log_entry list)" where
  "gps_columns w event_id gps_str =
     (if truthy gps_str
      then
        (case parse_gps_string w gps_str of
           Inr (lat, lon) \<Rightarrow> Inr (JFloat lat, JFloat lon, [])
         | Inl e \<Rightarrow>
             if e = ValueError then Inr (JNull, JNull, [WarnInvalidGPS event_id])
             else Inl e)
      else Inr (JNull, JNull, []))"

definition flatten_event_for_export :: "world \<Rightarrow> pydict \<Rightarrow> exn + (pydict \<times> log_entry list)" where
  "flatten_event_for_export w event =
     (let flattened = flattened_base w event in
      case get_default event ''location'' (JObj []) of
        JObj location \<Rightarrow>
          let flattened =
                dict_set ''location_name'' (get_default location ''name'' (JStr '''')) flattened;
              gps_str = get_default location ''gps'' (JStr '''')
          in
          (case gps_columns w (py_str w (get_default event ''id'' (JStr ''''))) gps_str of
             Inl e \<Rightarrow> Inl e
           | Inr (lat, lon, lg) \<Rightarrow>
               Inr (add_html_fields event (set_coordinates lat lon flattened), lg))
      | _ \<Rightarrow> Inl AttributeError)"

section \<open>main\<close>

text \<open>The command line, as far as the pipeline reads it: \<^verbatim>\<open>args.include_html\<close>,
  \<^verbatim>\<open>args.html_dir\<close>, \<^verbatim>\<open>args.start_date\<close> and \<^verbatim>\<open>args.end_date\<close>.\<close>

record args =
  arg_include_html :: bool
  arg_html_dir :: string
  arg_start_date :: "string option"
  arg_end_date :: "string option"

text \<open>\<^verbatim>\<open>datetime.fromisoformat(s).replace(hour=.., minute=.., second=..)\<close>; a date that
  does not parse ends the run.\<close>

definition start_bound :: "world \<Rightarrow> string \<Rightarrow> exn + datetime" where
  "start_bound w s =
     (case fromisoformat w s of
        None \<Rightarrow> Inl (SystemExit 1)
      | Some dt \<Rightarrow> Inr (dt\<lparr>hour := 0, minute := 0, second := 0\<rparr>))"

definition end_bound :: "world \<Rightarrow> string \<Rightarrow> exn + datetime" where
  "end_bound w s =
     (case fromisoformat w s of
        None \<Rightarrow> Inl (SystemExit 1)
      | Some dt \<Rightarrow> Inr (dt\<lparr>hour := 23, minute := 59, second := 59\<rparr>))"

text \<open>\<^verbatim>\<open>if args.start_date:\<close> holds for a given, non-empty string.\<close>

definition opt_bound ::
  "(string \<Rightarrow> exn + datetime) \<Rightarrow> string option \<Rightarrow> exn + datetime option" where
  "opt_bound f arg =
     (case arg of
        None \<Rightarrow> Inr None
      | Some s \<Rightarrow>
          if s = [] then Inr None
          else (case f s of Inl e \<Rightarrow> Inl e | Inr dt \<Rightarrow> Inr (Some dt)))"

text \<open>\<^verbatim>\<open>[flatten_event_for_export(e) for e in events_by_id.values()]\<close>\<close>

fun flatten_all :: "world \<Rightarrow> pydict list \<Rightarrow> exn + (pydict list \<times> log_entry list)" where
  "flatten_all w [] = Inr ([], [])"
| "flatten_all w (e # es) =
     (case flatten_event_for_export w e of
        Inl x \<Rightarrow> Inl x
      | Inr (f, lg) \<Rightarrow>
          (case flatten_all w es of
             Inl x \<Rightarrow> Inl x
           | Inr (fs, lg') \<Rightarrow> Inr (f # fs, lg @ lg')))"

text \<open>\<^verbatim>\<open>main\<close> up to the list handed to the writer (steps 1 to 3). The directory itself
  is the path with the empty name.\<close>

definition main :: "world \<Rightarrow> args \<Rightarrow> exn + (pydict list \<times> log_entry list)" where
  "main w a =
     (case opt_bound (start_bound w) (arg_start_date a) of
        Inl e \<Rightarrow> Inl e
      | Inr sd \<Rightarrow>
          (case opt_bound (end_bound w) (arg_end_date a) of
             Inl e \<Rightarrow> Inl e
           | Inr ed \<Rightarrow>
               (case extract_all_events w sd ed of
                  Inl e \<Rightarrow> Inl e
                | Inr (events_by_id, lg1) \<Rightarrow>
                    if events_by_id = [] then Inl (SystemExit 1)
                    else
                      (case (if arg_include_html a
                             then (case path_exists w (arg_html_dir a, []) of
                                     Inl e \<Rightarrow> Inl e
                                   | Inr found \<Rightarrow>
                                       if \<not> found then Inl (SystemExit 1)
                                       else enrich_with_html w events_by_id (arg_html_dir a))
                             else Inr (events_by_id, [])) of
                         Inl e \<Rightarrow> Inl e
                       | Inr (events_by_id', lg2) \<Rightarrow>
                           (case flatten_all w (map snd events_by_id') of
                              Inl e \<Rightarrow> Inl e
                            | Inr (events_list, lg3) \<Rightarrow>
                                Inr (events_list, lg1 @ lg2 @ lg3))))))"

section \<open>Notions the statements use\<close>

text \<open>A snapshot entry is a record with identity \<open>I\<close>.\<close>

definition has_identity :: "world \<Rightarrow> string \<Rightarrow> json \<Rightarrow> bool" where
  "has_identity w I e = (case e of JObj d \<Rightarrow> event_identity w d = I | _ \<Rightarrow> False)"

text \<open>The snapshot of a commit: the entries \<open>extract_events_from_commit\<close> returns for it.\<close>

definition snapshot :: "world \<Rightarrow> string \<Rightarrow> json list" where
  "snapshot w commit_sha =
     (case extract_events_from_commit w commit_sha of Inr (evs, lg) \<Rightarrow> evs | Inl e \<Rightarrow> [])"

text \<open>The snapshots of a list of commits, in walk order.\<close>

definition snapshots :: "world \<Rightarrow> (string \<times> string) list \<Rightarrow> json list list" where
  "snapshots w commits = map (\<lambda>c. snapshot w (fst c)) commits"

text \<open>A snapshot contains a record with identity \<open>I\<close>.\<close>

definition contains_identity :: "world \<Rightarrow> string \<Rightarrow> json list \<Rightarrow> bool" where
  "contains_identity w I snap = (\<exists>e\<in>set snap. has_identity w I e)"

text \<open>An entry is record-shaped: a JSON object.\<close>

definition is_record :: "json \<Rightarrow> bool" where
  "is_record e = (case e of JObj d \<Rightarrow> True | _ \<Rightarrow> False)"

text \<open>Every commit of the history yields a snapshot, and every entry of every snapshot is
  record-shaped.\<close>

definition record_history :: "world \<Rightarrow> (string \<times> string) list \<Rightarrow> bool" where
  "record_history w commits =
     (\<forall>c\<in>set commits.
        case extract_events_from_commit w (fst c) of
          Inl e \<Rightarrow> False
        | Inr (evs, lg) \<Rightarrow> \<forall>e\<in>set evs. is_record e)"

text \<open>A parsed value is a sequence: \<^verbatim>\<open>isinstance(events, list)\<close>.\<close>

definition is_sequence :: "json \<Rightarrow> bool" where
  "is_sequence v = (case v of JArr evs \<Rightarrow> True | _ \<Rightarrow> False)"

text \<open>
  The form \<^verbatim>\<open>"<float>,<float>"\<close> of a coordinate string, in the words of the
  specification: exactly one comma, and both sides parse as numbers after stripping. The
  result is the pair of the parsed values.
\<close>

definition gps_form :: "world \<Rightarrow> string \<Rightarrow> (pyfloat \<times> pyfloat) option" where
  "gps_form w s =
     (if count_list s CHR '','' = 1
      then
        (case py_float w (strip (takeWhile (\<lambda>c. c \<noteq> CHR '','') s)) of
           None \<Rightarrow> None
         | Some lat \<Rightarrow>
             (case py_float w (strip (tl (dropWhile (\<lambda>c. c \<noteq> CHR '','') s))) of
                None \<Rightarrow> None
              | Some lon \<Rightarrow> Some (lat, lon)))
      else None)"

text \<open>Latitude in [55, 70] and longitude in [10, 25].\<close>

definition in_bounds :: "pyfloat \<Rightarrow> pyfloat \<Rightarrow> bool" where
  "in_bounds lat lon =
     (float_le (Finite 55) lat \<and> float_le lat (Finite 70)
      \<and> float_le (Finite 10) lon \<and> float_le lon (Finite 25))"

text \<open>The five narrative fields, and a record that has all of them \<^verbatim>\<open>None\<close>.\<close>

definition narrative_fields :: "string list" where
  "narrative_fields =
     [''html_title'', ''html_preamble'', ''html_body'', ''html_published_datetime'',
      ''html_author'']"

definition narrative_null :: "pydict \<Rightarrow> bool" where
  "narrative_null event = (\<forall>k\<in>set narrative_fields. dict_get event k = Some JNull)"

text \<open>The document of an identity is there and its extraction succeeds.\<close>

definition document_ok :: "world \<Rightarrow> string \<Rightarrow> string \<Rightarrow> bool" where
  "document_ok w html_dir event_id =
     (path_exists w (html_dir, event_id @ ''.html'') = Inr True
      \<and> (case extract_html_data w (html_dir, event_id @ ''.html'') of
            Inr html_data \<Rightarrow> True
          | Inl e \<Rightarrow> False))"

text \<open>The document of an identity is missing: the existence check answers no.\<close>

definition document_missing :: "world \<Rightarrow> string \<Rightarrow> string \<Rightarrow> bool" where
  "document_missing w html_dir event_id =
     (path_exists w (html_dir, event_id @ ''.html'') = Inr False)"

text \<open>For every record the existence check answers, and where the extraction of a
  document raises, it raises an \<^verbatim>\<open>Exception\<close>.\<close>

definition raises_exceptions_only :: "world \<Rightarrow> string \<Rightarrow> events \<Rightarrow> bool" where
  "raises_exceptions_only w html_dir events =
     (\<forall>kv\<in>set events.
        case path_exists w (html_dir, fst kv @ ''.html'') of
          Inl e \<Rightarrow> False
        | Inr found \<Rightarrow>
            found \<longrightarrow>
              (case extract_html_data w (html_dir, fst kv @ ''.html'') of
                 Inr html_data \<Rightarrow> True
               | Inl e \<Rightarrow> is_Exception e))"

text \<open>The columns the flattener adds for an enriched record: the five narrative fields
  and the availability flag.\<close>

definition html_columns :: "string list" where
  "html_columns = narrative_fields @ [''html_available'']"

text \<open>A flattened record has all of these columns, or none of them.\<close>

definition has_html_columns :: "pydict \<Rightarrow> bool" where
  "has_html_columns flat = (\<forall>k\<in>set html_columns. has_key flat k)"

definition no_html_columns :: "pydict \<Rightarrow> bool" where
  "no_html_columns flat = (\<forall>k\<in>set html_columns. \<not> has_key flat k)"

text \<open>A run succeeded.\<close>

definition returns :: "exn + 'a \<Rightarrow> bool" where
  "returns r = (case r of Inr x \<Rightarrow> True | Inl e \<Rightarrow> False)"

text \<open>The filter reads \<^verbatim>\<open>event.get('datetime', '')\<close>. The field is missing or empty when
  that value is false; it fails to parse when it is a non-empty string that
  \<^verbatim>\<open>datetime.fromisoformat\<close> rejects; the record is kept when the body of the \<^verbatim>\<open>try\<close> reaches
  the assignment.\<close>

definition datetime_field :: "pydict \<Rightarrow> json" where
  "datetime_field event = get_default event ''datetime'' (JStr '''')"

definition missing_datetime :: "string \<times> pydict \<Rightarrow> bool" where
  "missing_datetime kv = (\<not> truthy (datetime_field (snd kv)))"

definition unparsable :: "world \<Rightarrow> string \<times> pydict \<Rightarrow> bool" where
  "unparsable w kv =
     (case datetime_field (snd kv) of
        JStr s \<Rightarrow> s \<noteq> [] \<and> fromisoformat w s = None
      | _ \<Rightarrow> False)"

definition kept :: "world \<Rightarrow> datetime option \<Rightarrow> datetime option \<Rightarrow> string \<times> pydict \<Rightarrow> bool" where
  "kept w sd ed kv =
     (truthy (datetime_field (snd kv))
      \<and> in_date_range w sd ed (datetime_field (snd kv)) = Inr True)"

text \<open>The warning logged for a record whose datetime does not parse.\<close>

definition datetime_warning :: "world \<Rightarrow> string \<times> pydict \<Rightarrow> log_entry" where
  "datetime_warning w kv = WarnDatetimeParse (fst kv) (py_str w (datetime_field (snd kv)))"

section \<open>An example world\<close>

text \<open>
  A small repository to run the model on. Its history has the commits \<open>c0\<close> to \<open>c12\<close>;
  the contents of \<^verbatim>\<open>events.json\<close> are named, and \<open>json_loads\<close> gives what each parses to:
  \<^item> \<open>S1\<close>: \<^verbatim>\<open>[{"id": 123, "name": "A", ...}, {"id": 7, "name": "C", ...}]\<close>
  \<^item> \<open>S2\<close>: \<^verbatim>\<open>[{"id": 7, "name": "C", ...}]\<close>
  \<^item> \<open>S3\<close>: \<^verbatim>\<open>[{"id": 123, "name": "B", ...}, {"id": 7, "name": "C", ...}]\<close>
  \<^item> \<open>c4\<close> holds \<^verbatim>\<open>[1]\<close>, a list whose entry is not a record;
  \<^item> \<open>c5\<close> holds \<^verbatim>\<open>[\<close>, a truncated file; \<open>c6\<close> holds \<^verbatim>\<open>{}\<close>, which is no list; \<open>c0\<close>
    holds an empty file;
  \<^item> \<open>S7\<close>: \<^verbatim>\<open>[{"name": "no id"}, {"id": "", "name": "empty id"}, {"id": 9, "name": "D"}]\<close>
  \<^item> \<open>S8\<close>: records 1 to 5 with the naive datetimes \<^verbatim>\<open>2024-01-01 00:00:00\<close>,
    \<^verbatim>\<open>2024-12-31 23:59:59\<close>, \<^verbatim>\<open>2024-12-31 23:59:59.001\<close>, \<^verbatim>\<open>2023-12-31 23:59:59.999\<close> and
    \<^verbatim>\<open>yesterday\<close>, and record 6 without a datetime;
  \<^item> \<open>S9\<close>: one record whose \<^verbatim>\<open>id\<close> is a string of 256 letters \<^verbatim>\<open>a\<close>;
  \<^item> \<open>c10\<close> holds \<open>DEEP\<close>, a file of 100000 opening brackets (a nested list cut off before
    any bracket closes), on which \<^verbatim>\<open>json.loads\<close> raises \<^verbatim>\<open>RecursionError\<close>;
  \<^item> \<open>c11\<close> holds a file cut off inside a multi-byte character: \<^verbatim>\<open>subprocess.run\<close> with
    \<^verbatim>\<open>text=True\<close> raises \<^verbatim>\<open>UnicodeDecodeError\<close> when it decodes the output;
  \<^item> \<open>c12\<close> holds \<open>BIGINT\<close>, a single integer of 5000 digits, on which \<^verbatim>\<open>json.loads\<close>
    raises \<^verbatim>\<open>ValueError\<close> (the limit on the digits of an integer);
  \<^item> \<^verbatim>\<open>git show\<close> fails for every other commit.
  The HTML directory \<open>html\<close> has a well-formed \<open>123.html\<close> and a \<open>7.html\<close> without the
  \<^verbatim>\<open>.event-page.editorial-content\<close> container, and nothing else. The file system takes
  names of up to 255 characters: \<^verbatim>\<open>stat\<close> on a longer name fails with \<^verbatim>\<open>ENAMETOOLONG\<close>, which
  \<^verbatim>\<open>Path.exists()\<close> raises as \<^verbatim>\<open>OSError\<close>.
\<close>

definition nl :: string where
  "nl = [CHR 0x0A]"

definition ev_123_A :: pydict where
  "ev_123_A =
     [(''id'', JInt 123), (''datetime'', JStr ''2024-06-15 12:00:00+02:00''), (''name'', JStr ''A''),
      (''location'', JObj [(''name'', JStr ''Sundsvall''), (''gps'', JStr ''62.5,17.25'')])]"

definition ev_123_B :: pydict where
  "ev_123_B =
     [(''id'', JInt 123), (''datetime'', JStr ''2024-06-15 12:00:00+02:00''), (''name'', JStr ''B''),
      (''location'', JObj [(''name'', JStr ''Sundsvall''), (''gps'', JStr ''62.5,17.25'')])]"

definition ev_7 :: pydict where
  "ev_7 =
     [(''id'', JInt 7), (''name'', JStr ''C''),
      (''location'', JObj [(''name'', JStr ''Nowhere''), (''gps'', JStr ''62.5,200.0'')])]"

definition ev_no_id :: pydict where
  "ev_no_id = [(''name'', JStr ''no id'')]"

definition ev_empty_id :: pydict where
  "ev_empty_id = [(''id'', JStr ''''), (''name'', JStr ''empty id'')]"

definition ev_9 :: pydict where
  "ev_9 = [(''id'', JInt 9), (''name'', JStr ''D'')]"

definition ev_long :: pydict where
  "ev_long = [(''id'', JStr (replicate 256 CHR ''a'')), (''name'', JStr ''E'')]"

definition ev_at :: "int \<Rightarrow> string \<Rightarrow> pydict" where
  "ev_at i s = [(''id'', JInt i), (''datetime'', JStr s)]"

text \<open>The bounds \<^verbatim>\<open>main\<close> builds from \<^verbatim>\<open>--start-date 2024-01-01 --end-date 2024-12-31\<close>.\<close>

definition start_2024 :: datetime where
  "start_2024 = \<lparr>year = 2024, month = 1, day = 1, hour = 0, minute = 0, second = 0,
                  microsecond = 0, utcoffset = None\<rparr>"

definition end_2024 :: datetime where
  "end_2024 = \<lparr>year = 2024, month = 12, day = 31, hour = 23, minute = 59, second = 59,
                microsecond = 0, utcoffset = None\<rparr>"

definition doc_123 :: element where
  "doc_123 =
     Element '''' []
       [(''.event-page.editorial-content'',
         [Element '''' []
            [(''h1'', [Element '' Brand '' [] []]),
             (''.text-body.editorial-html'',
              [Element '''' [] [(''p'', [Element ''One. '' [] [], Element ''Two.'' [] []])]]),
             (''time.date'', [Element '''' [(''datetime'', ''2024-06-15T12:30:00'')] []]),
             (''.published-container span'',
              [Element ''Text av'' [] [], Element ''Polisen'' [] []])]])]"

definition demo_world :: world where
  "demo_world =
     \<lparr> git_log = Inr (''c1|d1'' @ nl @ ''c2|d2'' @ nl @ ''c3|d3''),
       git_show = (\<lambda>sha.
         if sha = ''c1'' then Inr ''S1'' else if sha = ''c2'' then Inr ''S2''
         else if sha = ''c3'' then Inr ''S3'' else if sha = ''c4'' then Inr ''[1]''
         else if sha = ''c5'' then Inr ''['' else if sha = ''c6'' then Inr ''{}''
         else if sha = ''c7'' then Inr ''S7'' else if sha = ''c8'' then Inr ''S8''
         else if sha = ''c9'' then Inr ''S9'' else if sha = ''c10'' then Inr ''DEEP''
         else if sha = ''c11'' then Inl UnicodeDecodeError
         else if sha = ''c12'' then Inr ''BIGINT''
         else if sha = ''c0'' then Inr []
         else Inl CalledProcessError),
       json_loads = (\<lambda>s.
         if s = ''S1'' then Inr (JArr [JObj ev_123_A, JObj ev_7])
         else if s = ''S2'' then Inr (JArr [JObj ev_7])
         else if s = ''S3'' then Inr (JArr [JObj ev_123_B, JObj ev_7])
         else if s = ''[1]'' then Inr (JArr [JInt 1])
         else if s = ''{}'' then Inr (JObj [])
         else if s = ''S7'' then Inr (JArr [JObj ev_no_id, JObj ev_empty_id, JObj ev_9])
         else if s = ''S9'' then Inr (JArr [JObj ev_long])
         else if s = ''DEEP'' then Inl RecursionError
         else if s = ''BIGINT'' then Inl ValueError
         else if s = ''S8''
         then Inr (JArr [JObj (ev_at 1 ''2024-01-01 00:00:00''),
                         JObj (ev_at 2 ''2024-12-31 23:59:59''),
                         JObj (ev_at 3 ''2024-12-31 23:59:59.001''),
                         JObj (ev_at 4 ''2023-12-31 23:59:59.999''),
                         JObj (ev_at 5 ''yesterday''),
                         JObj [(''id'', JInt 6)]])
         else Inl JSONDecodeError),
       fromisoformat = (\<lambda>s.
         if s = ''2024-01-01''
         then Some \<lparr>year = 2024, month = 1, day = 1, hour = 0, minute = 0, second = 0,
                     microsecond = 0, utcoffset = None\<rparr>
         else if s = ''2024-12-31''
         then Some \<lparr>year = 2024, month = 12, day = 31, hour = 0, minute = 0, second = 0,
                     microsecond = 0, utcoffset = None\<rparr>
         else if s = ''2024-06-15 12:00:00+02:00''
         then Some \<lparr>year = 2024, month = 6, day = 15, hour = 12, minute = 0, second = 0,
                     microsecond = 0, utcoffset = Some 7200000000\<rparr>
         else if s = ''2024-01-01 00:00:00''
         then Some \<lparr>year = 2024, month = 1, day = 1, hour = 0, minute = 0, second = 0,
                     microsecond = 0, utcoffset = None\<rparr>
         else if s = ''2024-12-31 23:59:59''
         then Some \<lparr>year = 2024, month = 12, day = 31, hour = 23, minute = 59, second = 59,
                     microsecond = 0, utcoffset = None\<rparr>
         else if s = ''2024-12-31 23:59:59.001''
         then Some \<lparr>year = 2024, month = 12, day = 31, hour = 23, minute = 59, second = 59,
                     microsecond = 1000, utcoffset = None\<rparr>
         else if s = ''2023-12-31 23:59:59.999''
         then Some \<lparr>year = 2023, month = 12, day = 31, hour = 23, minute = 59, second = 59,
                     microsecond = 999000, utcoffset = None\<rparr>
         else None),
       py_float = (\<lambda>s.
         if s = ''62.5'' then Some (Finite 62.5)
         else if s = ''17.25'' then Some (Finite 17.25)
         else if s = ''200.0'' then Some (Finite 200)
         else None),
       py_repr = (\<lambda>v. ''?''),
       path_exists = (\<lambda>p.
         if length (snd p) > 255 then Inl OSError
         else Inr (p = (''html'', []) \<or> p = (''html'', ''123.html'') \<or> p = (''html'', ''7.html''))),
       read_text = (\<lambda>p.
         if p = (''html'', ''123.html'') then Inr ''DOC123''
         else if p = (''html'', ''7.html'') then Inr ''DOC7''
         else Inl (OtherException ''FileNotFoundError'')),
       fromstring = (\<lambda>s.
         if s = ''DOC123'' then Inr doc_123
         else if s = ''DOC7'' then Inr (Element '''' [] [])
         else Inl (OtherException ''ParserError'')) \<rparr>"

text \<open>The same world with another history.\<close>

definition demo_history :: "string \<Rightarrow> world" where
  "demo_history out = demo_world\<lparr>git_log := Inr out\<rparr>"

text \<open>Command lines.\<close>

definition demo_args :: "bool \<Rightarrow> string option \<Rightarrow> string option \<Rightarrow> args" where
  "demo_args html sd ed =
     \<lparr>arg_include_html = html, arg_html_dir = ''html'', arg_start_date = sd, arg_end_date = ed\<rparr>"

section \<open>Facts about dicts\<close>

lemma dict_get_dict_set:
  "dict_get (dict_set k v d) k' = (if k' = k then Some v else dict_get d k')"
  by (induction d) (auto simp: dict_get_def)

lemma map_fst_dict_set:
  "map fst (dict_set k v d) = (if k \<in> set (map fst d) then map fst d else map fst d @ [k])"
  by (induction d) (force+)

lemma keys_dict_set: "set (map fst (dict_set k v d)) = insert k (set (map fst d))"
  by (auto simp: map_fst_dict_set)

lemma distinct_dict_set: "distinct (map fst d) \<Longrightarrow> distinct (map fst (dict_set k v d))"
  by (simp add: map_fst_dict_set)

lemma has_key_dict_set: "has_key (dict_set k v d) k' = (k' = k \<or> has_key d k')"
  by (simp add: has_key_def dict_get_dict_set)

lemma dict_get_Some_mem: "dict_get d k = Some v \<Longrightarrow> (k, v) \<in> set d"
  by (simp add: dict_get_def map_of_SomeD)

lemma distinct_filter_key:
  "distinct (map fst d) \<Longrightarrow> dict_get d k = Some v \<Longrightarrow> filter (\<lambda>kv. fst kv = k) d = [(k, v)]"
proof (induction d)
  case Nil
  then show ?case by (simp add: dict_get_def)
next
  case (Cons p d)
  obtain k' v' where p: "p = (k', v')" by (cases p)
  show ?case
  proof (cases "k' = k")
    case True
    with Cons.prems p have v: "v' = v" and nk: "k \<notin> fst ` set d"
      by (auto simp: dict_get_def)
    from nk have "filter (\<lambda>kv. fst kv = k) d = []"
      by (auto simp: filter_empty_conv)
    with True p v show ?thesis by simp
  next
    case False
    with Cons p show ?thesis by (auto simp: dict_get_def)
  qed
qed

section \<open>Facts about the merge\<close>

lemma set_dict_set: "set (dict_set k v d) \<subseteq> insert (k, v) (set d)"
  by (induction d) (auto split: if_splits)

lemma merge_event_Inr:
  "merge_event w m e = Inr m' \<Longrightarrow>
     \<exists>d. e = JObj d \<and> m' = (if event_identity w d = [] then m else dict_set (event_identity w d) d m)"
  by (cases e) (auto simp: merge_event_def Let_def split: if_splits)

lemma merge_events_append:
  "merge_events w m (xs @ ys) =
     (case merge_events w m xs of Inl e \<Rightarrow> Inl e | Inr m1 \<Rightarrow> merge_events w m1 ys)"
  by (induction xs arbitrary: m) (auto split: sum.splits)

lemma merge_events_other:
  "merge_events w m evs = Inr m' \<Longrightarrow> \<not> contains_identity w I evs \<Longrightarrow> dict_get m' I = dict_get m I"
proof (induction evs arbitrary: m)
  case Nil
  then show ?case by simp
next
  case (Cons e evs)
  from Cons.prems(1) obtain m1 where s: "merge_event w m e = Inr m1"
    and r: "merge_events w m1 evs = Inr m'"
    by (auto split: sum.splits)
  from Cons.prems(2) have ne: "\<not> has_identity w I e" and nr: "\<not> contains_identity w I evs"
    by (auto simp: contains_identity_def)
  from merge_event_Inr[OF s] obtain d where e: "e = JObj d"
    and m1: "m1 = (if event_identity w d = [] then m else dict_set (event_identity w d) d m)"
    by blast
  from ne e have "event_identity w d \<noteq> I" by (simp add: has_identity_def)
  with m1 have "dict_get m1 I = dict_get m I" by (simp add: dict_get_dict_set)
  with Cons.IH[OF r nr] show ?case by simp
qed

lemma merge_events_last:
  "merge_events w m evs = Inr m' \<Longrightarrow> contains_identity w I evs \<Longrightarrow> I \<noteq> [] \<Longrightarrow>
     \<exists>d. dict_get m' I = Some d \<and> last (filter (has_identity w I) evs) = JObj d"
proof (induction evs arbitrary: m)
  case Nil
  then show ?case by (simp add: contains_identity_def)
next
  case (Cons e evs)
  from Cons.prems(1) obtain m1 where s: "merge_event w m e = Inr m1"
    and r: "merge_events w m1 evs = Inr m'"
    by (auto split: sum.splits)
  show ?case
  proof (cases "contains_identity w I evs")
    case True
    then have "filter (has_identity w I) evs \<noteq> []"
      by (auto simp: contains_identity_def filter_empty_conv)
    then have "last (filter (has_identity w I) (e # evs)) = last (filter (has_identity w I) evs)"
      by simp
    with Cons.IH[OF r True Cons.prems(3)] show ?thesis by simp
  next
    case False
    with Cons.prems(2) have he: "has_identity w I e" by (auto simp: contains_identity_def)
    from False have "filter (has_identity w I) evs = []"
      by (auto simp: contains_identity_def filter_empty_conv)
    with he have l: "last (filter (has_identity w I) (e # evs)) = e" by simp
    from merge_event_Inr[OF s] obtain d where e: "e = JObj d"
      and m1: "m1 = (if event_identity w d = [] then m else dict_set (event_identity w d) d m)"
      by blast
    from he e have "event_identity w d = I" by (simp add: has_identity_def)
    with m1 Cons.prems(3) have "dict_get m1 I = Some d" by (simp add: dict_get_dict_set)
    with merge_events_other[OF r False] have "dict_get m' I = Some d" by simp
    with l e show ?thesis by simp
  qed
qed

lemma merge_events_distinct:
  "merge_events w m evs = Inr m' \<Longrightarrow> distinct (map fst m) \<Longrightarrow> distinct (map fst m')"
proof (induction evs arbitrary: m)
  case Nil
  then show ?case by simp
next
  case (Cons e evs)
  from Cons.prems(1) obtain m1 where s: "merge_event w m e = Inr m1"
    and r: "merge_events w m1 evs = Inr m'"
    by (auto split: sum.splits)
  from merge_event_Inr[OF s] Cons.prems(2) have "distinct (map fst m1)"
    by (auto simp: distinct_dict_set)
  with Cons.IH[OF r] show ?case .
qed

lemma merge_events_origin:
  "merge_events w m evs = Inr m' \<Longrightarrow> (k, d) \<in> set m' \<Longrightarrow>
     (k, d) \<in> set m \<or> (JObj d \<in> set evs \<and> event_identity w d = k \<and> k \<noteq> [])"
proof (induction evs arbitrary: m)
  case Nil
  then show ?case by simp
next
  case (Cons e evs)
  from Cons.prems(1) obtain m1 where s: "merge_event w m e = Inr m1"
    and r: "merge_events w m1 evs = Inr m'"
    by (auto split: sum.splits)
  from merge_event_Inr[OF s] obtain d' where e: "e = JObj d'"
    and m1: "m1 = (if event_identity w d' = [] then m else dict_set (event_identity w d') d' m)"
    by blast
  from Cons.IH[OF r Cons.prems(2)]
  consider "(k, d) \<in> set m1" | "JObj d \<in> set evs \<and> event_identity w d = k \<and> k \<noteq> []"
    by blast
  then show ?case
  proof cases
    case 1
    show ?thesis
    proof (cases "event_identity w d' = []")
      case True
      with m1 1 show ?thesis by simp
    next
      case False
      with m1 1 set_dict_set[of "event_identity w d'" d' m]
      have "(k, d) = (event_identity w d', d') \<or> (k, d) \<in> set m" by auto
      with False e show ?thesis by auto
    qed
  next
    case 2
    then show ?thesis by simp
  qed
qed

lemma merge_events_total:
  "(\<forall>e\<in>set evs. \<exists>d. e = JObj d) \<Longrightarrow> \<exists>m'. merge_events w m evs = Inr m'"
  by (induction evs arbitrary: m) (auto simp: merge_event_def Let_def)

lemma merge_events_objects:
  "merge_events w m evs = Inr m' \<Longrightarrow> \<forall>e\<in>set evs. \<exists>d. e = JObj d"
proof (induction evs arbitrary: m)
  case Nil
  then show ?case by simp
next
  case (Cons e evs)
  from Cons.prems(1) obtain m1 where s: "merge_event w m e = Inr m1"
    and r: "merge_events w m1 evs = Inr m'"
    by (auto split: sum.splits)
  from merge_event_Inr[OF s] Cons.IH[OF r] show ?case by auto
qed

lemma merge_commits_concat:
  "merge_commits w m lg commits = Inr (m', lg') \<Longrightarrow>
     merge_events w m (concat (snapshots w commits)) = Inr m'"
proof (induction commits arbitrary: m lg)
  case Nil
  then show ?case by (simp add: snapshots_def)
next
  case (Cons c commits)
  obtain sha dt where c: "c = (sha, dt)" by (cases c)
  from Cons.prems c obtain evs l1 m1 where x: "extract_events_from_commit w sha = Inr (evs, l1)"
    and s: "merge_events w m evs = Inr m1"
    and r: "merge_commits w m1 (lg @ l1) commits = Inr (m', lg')"
    by (auto split: sum.splits)
  from x have "snapshot w sha = evs" by (simp add: snapshot_def)
  with c have "concat (snapshots w (c # commits)) = evs @ concat (snapshots w commits)"
    by (simp add: snapshots_def)
  with s Cons.IH[OF r] show ?case by (simp add: merge_events_append)
qed

lemma last_filter_concat:
  "\<exists>xs\<in>set xss. \<exists>x\<in>set xs. P x \<Longrightarrow>
     last (filter P (concat xss)) = last (filter P (last (filter (\<lambda>xs. \<exists>x\<in>set xs. P x) xss)))"
proof (induction xss)
  case Nil
  then show ?case by simp
next
  case (Cons xs xss)
  show ?case
  proof (cases "\<exists>ys\<in>set xss. \<exists>x\<in>set ys. P x")
    case True
    then have a: "filter P (concat xss) \<noteq> []" by (auto simp: filter_empty_conv)
    from True have b: "filter (\<lambda>xs. \<exists>x\<in>set xs. P x) xss \<noteq> []" by (auto simp: filter_empty_conv)
    from a b Cons.IH[OF True] show ?thesis by simp
  next
    case False
    then have a: "filter P (concat xss) = []" by (auto simp: filter_empty_conv)
    from False have b: "filter (\<lambda>xs. \<exists>x\<in>set xs. P x) xss = []" by (auto simp: filter_empty_conv)
    from False Cons.prems have "\<exists>x\<in>set xs. P x" by auto
    with a b show ?thesis by simp
  qed
qed

lemma is_record_iff: "is_record e \<longleftrightarrow> (\<exists>d. e = JObj d)"
  by (cases e) (simp_all add: is_record_def)

lemma merge_commits_total:
  "record_history w commits \<Longrightarrow> \<exists>m' lg'. merge_commits w m lg commits = Inr (m', lg')"
proof (induction commits arbitrary: m lg)
  case Nil
  then show ?case by simp
next
  case (Cons c commits)
  obtain sha dt where c: "c = (sha, dt)" by (cases c)
  from Cons.prems c obtain evs l1 where x: "extract_events_from_commit w sha = Inr (evs, l1)"
    and r: "\<forall>e\<in>set evs. is_record e"
    by (auto simp: record_history_def split: sum.splits)
  from r have "\<forall>e\<in>set evs. \<exists>d. e = JObj d"
    by (simp add: is_record_iff)
  from merge_events_total[OF this] obtain m1 where s: "merge_events w m evs = Inr m1"
    by blast
  from Cons.prems have "record_history w commits" by (simp add: record_history_def)
  from Cons.IH[OF this] obtain m' lg' where "merge_commits w m1 (lg @ l1) commits = Inr (m', lg')"
    by blast
  with c x s show ?case by simp
qed

section \<open>Facts about splitting and coordinate strings\<close>

lemma split_on_nonempty: "split_on c s \<noteq> []"
  by (induction s) auto

lemma length_split_on: "length (split_on c s) = Suc (count_list s c)"
  by (induction s) (auto simp: split_on_nonempty)

lemma split_on_no_sep: "c \<notin> set s \<Longrightarrow> split_on c s = [s]"
  by (induction s) auto

lemma split_on_unfold:
  "c \<in> set s \<Longrightarrow>
     split_on c s = takeWhile (\<lambda>x. x \<noteq> c) s # split_on c (tl (dropWhile (\<lambda>x. x \<noteq> c) s))"
proof (induction s)
  case Nil
  then show ?case by simp
next
  case (Cons x s)
  show ?case
  proof (cases "x = c")
    case True
    then show ?thesis by simp
  next
    case False
    with Cons.prems have "c \<in> set s" by simp
    from Cons.IH[OF this] False show ?thesis by simp
  qed
qed

lemma count_tl_dropWhile:
  "c \<in> set s \<Longrightarrow> count_list s c = Suc (count_list (tl (dropWhile (\<lambda>x. x \<noteq> c) s)) c)"
  by (induction s) auto

lemma count_list_0_iff': "count_list s c = 0 \<longleftrightarrow> c \<notin> set s"
  by (induction s) auto

lemma split_on_two:
  "count_list s c = 1 \<Longrightarrow>
     split_on c s = [takeWhile (\<lambda>x. x \<noteq> c) s, tl (dropWhile (\<lambda>x. x \<noteq> c) s)]"
proof -
  assume one: "count_list s c = 1"
  then have mem: "c \<in> set s" using count_list_0_iff'[of s c] by auto
  from count_tl_dropWhile[OF mem] one
  have "count_list (tl (dropWhile (\<lambda>x. x \<noteq> c) s)) c = 0" by simp
  then have "c \<notin> set (tl (dropWhile (\<lambda>x. x \<noteq> c) s))" by (simp add: count_list_0_iff')
  from split_on_no_sep[OF this] split_on_unfold[OF mem] show ?thesis by simp
qed

lemma parse_gps_str_form:
  "parse_gps_str w s =
     (case gps_form w s of
        None \<Rightarrow> Inl ValueError
      | Some (lat, lon) \<Rightarrow> if in_bounds lat lon then Inr (lat, lon) else Inl ValueError)"
proof (cases "count_list s CHR '','' = 1")
  case True
  then have mem: "CHR '','' \<in> set s" "s \<noteq> []" using count_list_0_iff'[of s "CHR '',''"] by auto
  from True have len: "length (split_on CHR '','' s) = 2" by (simp add: length_split_on)
  from split_on_two[OF True] mem len True show ?thesis
    by (auto simp: parse_gps_str_def gps_form_def in_bounds_def Let_def split: option.splits)
next
  case False
  then have "gps_form w s = None" by (simp add: gps_form_def)
  moreover from False have "s = [] \<or> CHR '','' \<notin> set s \<or> length (split_on CHR '','' s) \<noteq> 2"
    by (simp add: length_split_on)
  then have "parse_gps_str w s = Inl ValueError"
    by (auto simp: parse_gps_str_def Let_def)
  ultimately show ?thesis by simp
qed

section \<open>Facts about the flattened record\<close>

lemma dict_get_add_html_fields:
  "k \<notin> {''html_title'', ''html_preamble'', ''html_body'', ''html_published_datetime'',
          ''html_author'', ''html_available''} \<Longrightarrow>
     dict_get (add_html_fields event flattened) k = dict_get flattened k"
  by (simp add: add_html_fields_def dict_get_dict_set)

lemma dict_get_set_coordinates:
  "dict_get (set_coordinates lat lon flattened) ''latitude'' = Some lat
   \<and> dict_get (set_coordinates lat lon flattened) ''longitude'' = Some lon"
  by (simp add: set_coordinates_def dict_get_dict_set)

lemma coordinates_of_result:
  "dict_get (add_html_fields event (set_coordinates lat lon flattened)) ''latitude'' = Some lat
   \<and> dict_get (add_html_fields event (set_coordinates lat lon flattened)) ''longitude'' = Some lon"
  by (simp add: dict_get_add_html_fields dict_get_set_coordinates)

lemma parse_gps_string_Inr:
  "parse_gps_string w v = Inr (lat, lon) \<Longrightarrow> in_bounds lat lon"
proof (cases v)
  case (JStr s)
  assume "parse_gps_string w v = Inr (lat, lon)"
  with JStr show ?thesis
    by (auto simp: parse_gps_str_form split: option.splits if_splits)
qed (auto split: if_splits)

lemma gps_columns_Inr:
  assumes "gps_columns w i v = Inr (lat, lon, lg)"
  shows "(lat = JNull \<and> lon = JNull)
       \<or> (\<exists>a b. lat = JFloat a \<and> lon = JFloat b \<and> in_bounds a b)"
proof (cases "truthy v")
  case False
  with assms show ?thesis by (simp add: gps_columns_def)
next
  case True
  show ?thesis
  proof (cases "parse_gps_string w v")
    case (Inl e)
    with True assms show ?thesis by (simp add: gps_columns_def split: if_splits)
  next
    case (Inr p)
    obtain a b where p: "p = (a, b)" by (cases p)
    from parse_gps_string_Inr Inr p have "in_bounds a b" by simp
    with True assms Inr p show ?thesis by (auto simp: gps_columns_def)
  qed
qed

lemma gps_columns_str:
  "gps_columns w i (JStr s) =
     (case gps_form w s of
        None \<Rightarrow> Inr (JNull, JNull, if s = [] then [] else [WarnInvalidGPS i])
      | Some (lat, lon) \<Rightarrow>
          if in_bounds lat lon then Inr (JFloat lat, JFloat lon, [])
          else Inr (JNull, JNull, [WarnInvalidGPS i]))"
proof (cases "s = []")
  case True
  then have "gps_form w s = None" by (simp add: gps_form_def)
  with True show ?thesis by (simp add: gps_columns_def)
next
  case False
  then show ?thesis
    by (simp add: gps_columns_def parse_gps_str_form split: option.splits)
qed

lemma flatten_Inr_shape:
  assumes "flatten_event_for_export w event = Inr (flat, lg)"
  shows "\<exists>location lat lon.
           get_default event ''location'' (JObj []) = JObj location
         \<and> gps_columns w (py_str w (get_default event ''id'' (JStr [])))
               (get_default location ''gps'' (JStr [])) = Inr (lat, lon, lg)
         \<and> flat = add_html_fields event (set_coordinates lat lon
               (dict_set ''location_name'' (get_default location ''name'' (JStr []))
                  (flattened_base w event)))"
proof (cases "get_default event ''location'' (JObj [])")
  case (JObj location)
  show ?thesis
  proof (cases "gps_columns w (py_str w (get_default event ''id'' (JStr [])))
                  (get_default location ''gps'' (JStr []))")
    case (Inl e)
    with JObj assms show ?thesis by (simp add: flatten_event_for_export_def)
  next
    case (Inr r)
    obtain lat lon l where r: "r = (lat, lon, l)" by (cases r)
    with JObj Inr assms show ?thesis by (simp add: flatten_event_for_export_def)
  qed
qed (use assms in \<open>simp_all add: flatten_event_for_export_def\<close>)

lemma flatten_location:
  assumes "get_default event ''location'' (JObj []) = JObj location"
    and "gps_columns w (py_str w (get_default event ''id'' (JStr [])))
           (get_default location ''gps'' (JStr [])) = Inr (lat, lon, lg)"
  shows "flatten_event_for_export w event =
           Inr (add_html_fields event (set_coordinates lat lon
                  (dict_set ''location_name'' (get_default location ''name'' (JStr []))
                     (flattened_base w event))), lg)"
  using assms by (simp add: flatten_event_for_export_def)

lemma has_key_iff: "has_key d k \<longleftrightarrow> k \<in> set (map fst d)"
  by (induction d) (auto simp: has_key_def dict_get_def)

lemma returns_iff: "returns r \<longleftrightarrow> (\<exists>x. r = Inr x)"
  by (cases r) (simp_all add: returns_def)

lemma has_key_add_html_fields:
  "has_key (add_html_fields event f) k
     \<longleftrightarrow> has_key f k \<or> (has_key event ''html_available'' \<and> k \<in> set html_columns)"
  by (auto simp: add_html_fields_def has_key_dict_set html_columns_def narrative_fields_def)

lemma dict_get_add_html_fields_narrative:
  "has_key event ''html_available'' \<Longrightarrow> k \<in> set narrative_fields \<Longrightarrow>
     dict_get (add_html_fields event f) k = Some (get_none event k)"
  by (auto simp: add_html_fields_def dict_get_dict_set narrative_fields_def)

lemma dict_get_add_html_fields_flag:
  "has_key event ''html_available'' \<Longrightarrow>
     dict_get (add_html_fields event f) ''html_available'' = dict_get event ''html_available''"
  by (auto simp: add_html_fields_def dict_get_dict_set get_default_def has_key_def)

lemma keys_before_html:
  "map fst (set_coordinates lat lon (dict_set ''location_name'' n (flattened_base w event)))
     = [''event_id'', ''datetime'', ''name'', ''summary'', ''url'', ''type'',
        ''location_name'', ''latitude'', ''longitude'']"
  by (simp add: set_coordinates_def map_fst_dict_set flattened_base_def)

lemma flatten_all_all2:
  "flatten_all w es = Inr (fs, lg) \<Longrightarrow>
     list_all2 (\<lambda>e f. \<exists>l. flatten_event_for_export w e = Inr (f, l)) es fs"
proof (induction es arbitrary: fs lg)
  case Nil
  then show ?case by simp
next
  case (Cons e es)
  from Cons.prems obtain f l fs' l' where "flatten_event_for_export w e = Inr (f, l)"
    and r: "flatten_all w es = Inr (fs', l')" and "fs = f # fs'"
    by (auto split: sum.splits)
  with Cons.IH[OF r] show ?case by auto
qed

lemma flatten_columns:
  assumes "flatten_event_for_export w event = Inr (flat, lg)"
  shows "(has_key event ''html_available'' \<longrightarrow> has_html_columns flat)
       \<and> (\<not> has_key event ''html_available'' \<longrightarrow> no_html_columns flat)"
proof -
  from flatten_Inr_shape[OF assms] obtain location lat lon
    where f: "flat = add_html_fields event (set_coordinates lat lon
               (dict_set ''location_name'' (get_default location ''name'' (JStr []))
                  (flattened_base w event)))"
    by blast
  let ?f0 = "set_coordinates lat lon
               (dict_set ''location_name'' (get_default location ''name'' (JStr []))
                  (flattened_base w event))"
  have "\<forall>k\<in>set html_columns. \<not> has_key ?f0 k"
    by (simp add: has_key_iff keys_before_html html_columns_def narrative_fields_def)
  with f show ?thesis
    by (simp add: has_html_columns_def no_html_columns_def has_key_add_html_fields)
qed

lemma set_dict_set_subset: "(k', v') \<in> set (dict_set k v d) \<Longrightarrow> (k', v') = (k, v) \<or> (k', v') \<in> set d"
  using set_dict_set[of k v d] by auto

section \<open>Facts about the enrichment\<close>

lemma set_unavailable_get:
  "dict_get (set_unavailable event) ''html_available'' = Some (JBool False)"
  "narrative_null (set_unavailable event)"
  by (simp_all add: set_unavailable_def narrative_null_def narrative_fields_def dict_get_dict_set)

lemma extract_html_data_shape:
  "extract_html_data w p = Inr html_data \<Longrightarrow>
     \<exists>t pr b pd a. html_data =
        [(''html_title'', t), (''html_preamble'', pr), (''html_body'', b),
         (''html_published_datetime'', pd), (''html_author'', a),
         (''html_available'', JBool True)]"
  by (auto simp: extract_html_data_def Let_def split: sum.splits list.splits)

lemma enrich_event_available:
  "extract_html_data w p = Inr html_data \<Longrightarrow>
     dict_get (dict_update event html_data) ''html_available'' = Some (JBool True)"
  by (drule extract_html_data_shape) (auto simp: dict_get_dict_set)

text \<open>The three branches of the loop body, and the two ways out of it by an exception.\<close>

lemma enrich_event_missing:
  "path_exists w (html_dir, k @ ''.html'') = Inr False \<Longrightarrow>
     enrich_event w html_dir k ev = Inr (set_unavailable ev, [WarnHtmlNotFound k])"
  by (simp add: enrich_event_def)

lemma enrich_event_failed:
  "path_exists w (html_dir, k @ ''.html'') = Inr True \<Longrightarrow>
   extract_html_data w (html_dir, k @ ''.html'') = Inl e \<Longrightarrow> is_Exception e \<Longrightarrow>
     enrich_event w html_dir k ev = Inr (set_unavailable ev, [ErrHtmlParse k])"
  by (simp add: enrich_event_def)

lemma enrich_event_extracted:
  "path_exists w (html_dir, k @ ''.html'') = Inr True \<Longrightarrow>
   extract_html_data w (html_dir, k @ ''.html'') = Inr html_data \<Longrightarrow>
     enrich_event w html_dir k ev = Inr (dict_update ev html_data, [])"
  by (simp add: enrich_event_def)

lemma enrich_event_exists_raises:
  "path_exists w (html_dir, k @ ''.html'') = Inl e \<Longrightarrow>
     enrich_event w html_dir k ev = Inl e"
  by (simp add: enrich_event_def)

lemma enrich_event_cases:
  assumes "enrich_event w html_dir k ev = Inr (ev', lg)"
  shows "(document_ok w html_dir k \<and> dict_get ev' ''html_available'' = Some (JBool True))
       \<or> (\<not> document_ok w html_dir k \<and> dict_get ev' ''html_available'' = Some (JBool False)
           \<and> narrative_null ev')"
proof (cases "path_exists w (html_dir, k @ ''.html'')")
  case (Inl e)
  with assms show ?thesis by (simp add: enrich_event_exists_raises)
next
  case (Inr found)
  show ?thesis
  proof (cases found)
    case False
    with Inr assms show ?thesis
      by (auto simp: enrich_event_missing document_ok_def set_unavailable_get)
  next
    case True
    show ?thesis
    proof (cases "extract_html_data w (html_dir, k @ ''.html'')")
      case (Inl e)
      with True Inr assms show ?thesis
        by (auto simp: enrich_event_def document_ok_def set_unavailable_get split: if_splits)
    next
      case r: (Inr html_data)
      with True Inr assms enrich_event_available[OF r] show ?thesis
        by (auto simp: enrich_event_def document_ok_def)
    qed
  qed
qed

lemma enrich_event_total:
  assumes "case path_exists w (html_dir, k @ ''.html'') of
             Inl e \<Rightarrow> False
           | Inr found \<Rightarrow>
               found \<longrightarrow>
                 (case extract_html_data w (html_dir, k @ ''.html'') of
                    Inr html_data \<Rightarrow> True
                  | Inl e \<Rightarrow> is_Exception e)"
  shows "\<exists>ev' lg. enrich_event w html_dir k ev = Inr (ev', lg)"
  using assms by (auto simp: enrich_event_def Let_def split: sum.splits)

lemma enrich_with_html_all2:
  "enrich_with_html w events html_dir = Inr (events', lg) \<Longrightarrow>
     list_all2 (\<lambda>kv kv'. fst kv' = fst kv
        \<and> (\<exists>l. enrich_event w html_dir (fst kv) (snd kv) = Inr (snd kv', l))) events events'"
proof (induction events arbitrary: events' lg)
  case Nil
  then show ?case by simp
next
  case (Cons kv events)
  obtain k ev where kv: "kv = (k, ev)" by (cases kv)
  from Cons.prems kv obtain ev' l rest' l' where e: "enrich_event w html_dir k ev = Inr (ev', l)"
    and r: "enrich_with_html w events html_dir = Inr (rest', l')"
    and res: "events' = (k, ev') # rest'"
    by (auto split: sum.splits)
  from Cons.IH[OF r] e kv res show ?case by auto
qed

lemma enrich_with_html_total:
  "raises_exceptions_only w html_dir events \<Longrightarrow>
     \<exists>events' lg. enrich_with_html w events html_dir = Inr (events', lg)"
proof (induction events)
  case Nil
  then show ?case by simp
next
  case (Cons kv events)
  obtain k ev where kv: "kv = (k, ev)" by (cases kv)
  from Cons.prems kv have "case path_exists w (html_dir, k @ ''.html'') of
             Inl e \<Rightarrow> False
           | Inr found \<Rightarrow>
               found \<longrightarrow>
                 (case extract_html_data w (html_dir, k @ ''.html'') of
                    Inr html_data \<Rightarrow> True
                  | Inl e \<Rightarrow> is_Exception e)"
    by (auto simp: raises_exceptions_only_def split: sum.splits)
  from enrich_event_total[OF this] obtain ev' l where e: "enrich_event w html_dir k ev = Inr (ev', l)"
    by blast
  from Cons.prems have "raises_exceptions_only w html_dir events"
    by (simp add: raises_exceptions_only_def)
  from Cons.IH[OF this] obtain rest' l' where "enrich_with_html w events html_dir = Inr (rest', l')"
    by blast
  with e kv show ?case by simp
qed

lemma enrich_with_html_marked:
  assumes "enrich_with_html w events dir = Inr (events', lg)" and "kv \<in> set events'"
  shows "has_key (snd kv) ''html_available''"
proof -
  from enrich_with_html_all2[OF assms(1)]
  have len: "length events = length events'"
    and nth: "\<And>i. i < length events \<Longrightarrow>
        (\<exists>l. enrich_event w dir (fst (events ! i)) (snd (events ! i)) = Inr (snd (events' ! i), l))"
    by (auto simp: list_all2_conv_all_nth)
  from assms(2) obtain i where i: "i < length events'" and kv: "kv = events' ! i"
    by (auto simp: in_set_conv_nth)
  from i len nth[of i] obtain l
    where "enrich_event w dir (fst (events ! i)) (snd (events ! i)) = Inr (snd (events' ! i), l)"
    by auto
  from enrich_event_cases[OF this] kv show ?thesis by (auto simp: has_key_def)
qed

text \<open>An exception of the loop body ends the loop: the pass raises what the first record
  to raise raises.\<close>

lemma enrich_with_html_raises:
  "enrich_event w html_dir k ev = Inl e \<Longrightarrow>
     enrich_with_html w ((k, ev) # rest) html_dir = Inl e"
  by simp

section \<open>Facts about the date filter and the origin of records\<close>

lemma filter_events_step:
  assumes "filter_events w sd ed ((k, ev) # evs) acc lg = Inr r"
  shows "\<exists>acc' lg1. filter_events w sd ed evs acc' lg1 = Inr r
           \<and> (acc' = acc \<or> acc' = dict_set k ev acc)"
proof (cases "truthy (get_default ev ''datetime'' (JStr []))")
  case False
  with assms show ?thesis by auto
next
  case True
  show ?thesis
  proof (cases "in_date_range w sd ed (get_default ev ''datetime'' (JStr []))")
    case (Inl e)
    with True assms show ?thesis by (cases "e = ValueError") auto
  next
    case (Inr keep)
    with True assms show ?thesis by (cases keep) auto
  qed
qed

lemma filter_events_origin:
  "filter_events w sd ed evs acc lg = Inr (f, lg') \<Longrightarrow> kv \<in> set f \<Longrightarrow>
     kv \<in> set acc \<or> kv \<in> set evs"
proof (induction evs arbitrary: acc lg)
  case Nil
  then show ?case by simp
next
  case (Cons x evs)
  obtain k ev where x: "x = (k, ev)" by (cases x)
  obtain k' v' where kv: "kv = (k', v')" by (cases kv)
  from Cons.prems(1) x filter_events_step[of w sd ed k ev evs acc lg "(f, lg')"]
  obtain acc' lg1 where r: "filter_events w sd ed evs acc' lg1 = Inr (f, lg')"
    and a: "acc' = acc \<or> acc' = dict_set k ev acc"
    by blast
  from Cons.IH[OF r Cons.prems(2)] have "kv \<in> set acc' \<or> kv \<in> set evs" .
  with a x kv set_dict_set_subset[of k' v' k ev acc] show ?case by auto
qed

lemma merge_commits_origin:
  assumes "merge_commits w [] lg commits = Inr (m, lg')" and "(k, d) \<in> set m"
  shows "\<exists>snap\<in>set (snapshots w commits). JObj d \<in> set snap"
proof -
  from merge_commits_concat[OF assms(1)]
  have "merge_events w [] (concat (snapshots w commits)) = Inr m" .
  from merge_events_origin[OF this assms(2)] show ?thesis by auto
qed

lemma extract_all_events_cases:
  assumes "get_all_commits w = Inr commits"
    and "extract_all_events w sd ed = Inr (events_by_id, lg)"
  shows "\<exists>m l. merge_commits w [] [] commits = Inr (m, l)
           \<and> (if sd \<noteq> None \<or> ed \<noteq> None
               then filter_events w sd ed m [] l = Inr (events_by_id, lg)
               else (events_by_id, lg) = (m, l))"
proof (cases "merge_commits w [] [] commits")
  case (Inl e)
  with assms show ?thesis by (simp add: extract_all_events_def)
next
  case (Inr r)
  obtain m l where "r = (m, l)" by (cases r)
  with Inr assms show ?thesis by (auto simp: extract_all_events_def split: if_splits)
qed

lemma extract_all_events_origin:
  assumes "get_all_commits w = Inr commits"
    and "extract_all_events w sd ed = Inr (events_by_id, lg)"
    and "(k, d) \<in> set events_by_id"
  shows "\<exists>snap\<in>set (snapshots w commits). JObj d \<in> set snap"
proof -
  from extract_all_events_cases[OF assms(1,2)] obtain m l
    where mc: "merge_commits w [] [] commits = Inr (m, l)"
      and r: "if sd \<noteq> None \<or> ed \<noteq> None
               then filter_events w sd ed m [] l = Inr (events_by_id, lg)
               else (events_by_id, lg) = (m, l)"
    by blast
  have "(k, d) \<in> set m"
  proof (cases "sd \<noteq> None \<or> ed \<noteq> None")
    case True
    with r have "filter_events w sd ed m [] l = Inr (events_by_id, lg)" by simp
    from filter_events_origin[OF this assms(3)] show ?thesis by simp
  next
    case False
    with r assms(3) show ?thesis by simp
  qed
  from merge_commits_origin[OF mc this] show ?thesis .
qed

lemma datetime_lt_not_ValueError: "datetime_lt a b \<noteq> Inl ValueError"
  by (simp add: datetime_lt_def split: option.splits)

lemma in_date_range_ValueError:
  "in_date_range w sd ed v = Inl ValueError \<longleftrightarrow> (\<exists>s. v = JStr s \<and> fromisoformat w s = None)"
proof (cases v)
  case (JStr s)
  show ?thesis
  proof (cases "fromisoformat w s")
    case None
    with JStr show ?thesis by (simp add: in_date_range_def)
  next
    case (Some dt)
    have "in_date_range w sd ed (JStr s) \<noteq> Inl ValueError"
      using Some datetime_lt_not_ValueError
      by (auto simp: in_date_range_def split: option.splits sum.splits if_splits)
    with JStr Some show ?thesis by simp
  qed
qed (simp_all add: in_date_range_def)

lemma unparsable_iff:
  "unparsable w kv \<longleftrightarrow>
     truthy (datetime_field (snd kv))
     \<and> in_date_range w sd ed (datetime_field (snd kv)) = Inl ValueError"
  by (cases "datetime_field (snd kv)")
     (auto simp: unparsable_def in_date_range_ValueError)

lemma filter_events_spec:
  "filter_events w sd ed evs acc lg = Inr (f, lg') \<Longrightarrow>
     f = fold (\<lambda>kv. dict_set (fst kv) (snd kv)) (filter (kept w sd ed) evs) acc
     \<and> lg' = lg @ map (datetime_warning w) (filter (unparsable w) evs)"
proof (induction evs arbitrary: acc lg)
  case Nil
  then show ?case by simp
next
  case (Cons x evs)
  obtain k ev where x: "x = (k, ev)" by (cases x)
  let ?v = "get_default ev ''datetime'' (JStr [])"
  have dv: "datetime_field (snd x) = ?v" by (simp add: x datetime_field_def)
  show ?case
  proof (cases "truthy ?v")
    case False
    with Cons.prems x have r: "filter_events w sd ed evs acc lg = Inr (f, lg')" by simp
    from False dv have "\<not> kept w sd ed x" "\<not> unparsable w x"
      by (simp_all add: kept_def unparsable_iff[of w x sd ed])
    with Cons.IH[OF r] show ?thesis by simp
  next
    case True
    show ?thesis
    proof (cases "in_date_range w sd ed ?v")
      case (Inl e)
      show ?thesis
      proof (cases "e = ValueError")
        case e: True
        with Inl True Cons.prems x
        have r: "filter_events w sd ed evs acc (lg @ [WarnDatetimeParse k (py_str w ?v)]) = Inr (f, lg')"
          by simp
        from Inl e True dv have "\<not> kept w sd ed x" "unparsable w x"
          by (simp_all add: kept_def unparsable_iff[of w x sd ed])
        moreover have "datetime_warning w x = WarnDatetimeParse k (py_str w ?v)"
          by (simp add: datetime_warning_def x datetime_field_def)
        ultimately show ?thesis using Cons.IH[OF r] by simp
      next
        case False
        with Inl True Cons.prems x show ?thesis by simp
      qed
    next
      case (Inr keep)
      show ?thesis
      proof (cases keep)
        case k: True
        with Inr True Cons.prems x
        have r: "filter_events w sd ed evs (dict_set k ev acc) lg = Inr (f, lg')" by simp
        from Inr k True dv have "kept w sd ed x" "\<not> unparsable w x"
          by (simp_all add: kept_def unparsable_iff[of w x sd ed])
        with Cons.IH[OF r] x show ?thesis by simp
      next
        case False
        with Inr True Cons.prems x
        have r: "filter_events w sd ed evs acc lg = Inr (f, lg')" by simp
        from Inr False True dv have "\<not> kept w sd ed x" "\<not> unparsable w x"
          by (simp_all add: kept_def unparsable_iff[of w x sd ed])
        with Cons.IH[OF r] show ?thesis by simp
      qed
    qed
  qed
qed

lemma dict_set_fresh: "k \<notin> set (map fst d) \<Longrightarrow> dict_set k v d = d @ [(k, v)]"
  by (induction d) auto

lemma fold_dict_set_fresh:
  "distinct (map fst (acc @ xs)) \<Longrightarrow>
     fold (\<lambda>kv. dict_set (fst kv) (snd kv)) xs acc = acc @ xs"
proof (induction xs arbitrary: acc)
  case Nil
  then show ?case by simp
next
  case (Cons x xs)
  from Cons.prems have "fst x \<notin> set (map fst acc)" by auto
  then have s: "dict_set (fst x) (snd x) acc = acc @ [x]" by (simp add: dict_set_fresh)
  from Cons.prems have "distinct (map fst ((acc @ [x]) @ xs))" by simp
  from Cons.IH[OF this] s show ?case by simp
qed

lemma distinct_filter_fst:
  "distinct (map fst xs) \<Longrightarrow> distinct (map fst (filter P xs))"
  by (induction xs) auto

lemma filter_events_distinct:
  assumes "distinct (map fst evs)" and "filter_events w sd ed evs [] lg = Inr (f, lg')"
  shows "f = filter (kept w sd ed) evs
       \<and> lg' = lg @ map (datetime_warning w) (filter (unparsable w) evs)"
proof -
  from distinct_filter_fst[OF assms(1)]
  have "distinct (map fst ([] @ filter (kept w sd ed) evs))" by simp
  from fold_dict_set_fresh[OF this] filter_events_spec[OF assms(2)] show ?thesis by simp
qed

lemma dropped_key:
  "distinct (map fst xs) \<Longrightarrow> kv \<in> set xs \<Longrightarrow> \<not> P kv \<Longrightarrow> fst kv \<notin> set (map fst (filter P xs))"
proof (induction xs)
  case Nil
  then show ?case by simp
next
  case (Cons x xs)
  show ?case
  proof (cases "kv = x")
    case True
    with Cons.prems have "fst kv \<notin> set (map fst xs)" by simp
    then have "fst kv \<notin> set (map fst (filter P xs))" by auto
    with True Cons.prems(3) show ?thesis by simp
  next
    case False
    with Cons.prems have in_xs: "kv \<in> set xs" and d: "distinct (map fst xs)" by simp_all
    from Cons.IH[OF d in_xs Cons.prems(3)] have a: "fst kv \<notin> set (map fst (filter P xs))" .
    from in_xs Cons.prems(1) have "fst x \<noteq> fst kv" by auto
    with a show ?thesis by simp
  qed
qed

text \<open>\<^verbatim>\<open>replace(hour=.., minute=.., second=..)\<close> keeps the time zone: a bound built from a
  calendar date is naive, and comparing an aware timestamp with it raises.\<close>

lemma start_bound_offset:
  "start_bound w s = Inr b \<Longrightarrow> \<exists>dt. fromisoformat w s = Some dt \<and> utcoffset b = utcoffset dt"
  by (auto simp: start_bound_def split: option.splits)

lemma end_bound_offset:
  "end_bound w s = Inr b \<Longrightarrow> \<exists>dt. fromisoformat w s = Some dt \<and> utcoffset b = utcoffset dt"
  by (auto simp: end_bound_def split: option.splits)

lemma aware_against_naive_start:
  "fromisoformat w s = Some dt \<Longrightarrow> utcoffset dt \<noteq> None \<Longrightarrow> utcoffset sd = None \<Longrightarrow>
     in_date_range w (Some sd) ed (JStr s) = Inl TypeError"
  by (auto simp: in_date_range_def datetime_lt_def)

lemma aware_against_naive_end:
  "fromisoformat w s = Some dt \<Longrightarrow> utcoffset dt \<noteq> None \<Longrightarrow> utcoffset ed = None \<Longrightarrow>
     in_date_range w None (Some ed) (JStr s) = Inl TypeError"
  by (auto simp: in_date_range_def datetime_lt_def)

section \<open>Facts about the whole run\<close>

lemma main_Inr:
  assumes "main w a = Inr (flats, lg)"
  shows "\<exists>sd ed events_by_id l1 events2 l2 l3.
           extract_all_events w sd ed = Inr (events_by_id, l1)
         \<and> (if arg_include_html a
              then enrich_with_html w events_by_id (arg_html_dir a) = Inr (events2, l2)
              else events2 = events_by_id)
         \<and> flatten_all w (map snd events2) = Inr (flats, l3)"
proof (cases "opt_bound (start_bound w) (arg_start_date a)")
  case (Inl e)
  with assms show ?thesis by (simp add: main_def)
next
  case sd: (Inr sd)
  show ?thesis
  proof (cases "opt_bound (end_bound w) (arg_end_date a)")
    case (Inl e)
    with sd assms show ?thesis by (simp add: main_def)
  next
    case ed: (Inr ed)
    show ?thesis
    proof (cases "extract_all_events w sd ed")
      case (Inl e)
      with sd ed assms show ?thesis by (simp add: main_def)
    next
      case (Inr r)
      obtain events_by_id l1 where r: "r = (events_by_id, l1)" by (cases r)
      with Inr have x: "extract_all_events w sd ed = Inr (events_by_id, l1)" by simp
      show ?thesis
      proof (cases "arg_include_html a")
        case True
        with sd ed x assms obtain events2 l2 l3
          where "enrich_with_html w events_by_id (arg_html_dir a) = Inr (events2, l2)"
            and "flatten_all w (map snd events2) = Inr (flats, l3)"
          by (auto simp: main_def split: if_splits sum.splits)
        with True x show ?thesis by (simp only: if_True) blast
      next
        case False
        with sd ed x assms obtain l3
          where "flatten_all w (map snd events_by_id) = Inr (flats, l3)"
          by (auto simp: main_def split: if_splits sum.splits)
        with False x show ?thesis by (simp only: if_False) blast
      qed
    qed
  qed
qed

lemma flatten_all_member:
  "flatten_all w es = Inr (fs, lg) \<Longrightarrow> f \<in> set fs \<Longrightarrow>
     \<exists>e\<in>set es. \<exists>l. flatten_event_for_export w e = Inr (f, l)"
proof (induction es arbitrary: fs lg)
  case Nil
  then show ?case by simp
next
  case (Cons e es)
  from Cons.prems(1) obtain f0 l fs' l' where h: "flatten_event_for_export w e = Inr (f0, l)"
    and r: "flatten_all w es = Inr (fs', l')" and fs: "fs = f0 # fs'"
    by (auto split: sum.splits)
  from Cons.prems(2) fs have "f = f0 \<or> f \<in> set fs'" by simp
  then show ?case
  proof
    assume "f = f0"
    with h show ?thesis by auto
  next
    assume "f \<in> set fs'"
    from Cons.IH[OF r this] show ?thesis by auto
  qed
qed

section \<open>The merge keeps the latest version (C1)\<close>

text \<open>
  Claim C1. Let the history be walked oldest first, every commit yield a snapshot and every
  snapshot entry be a record. For every non-empty identity \<open>I\<close> that some snapshot
  contains, \<open>extract_all_events\<close> without a date filter returns a mapping with exactly one
  binding for \<open>I\<close>, and the bound record is the one found in the last snapshot, in walk
  order, that contains a record with identity \<open>I\<close> (the last such entry of that snapshot,
  should it list the identity more than once).
\<close>

theorem latest_snapshot_wins:
  assumes commits: "get_all_commits w = Inr commits"
    and records: "record_history w commits"
    and nonempty: "I \<noteq> []"
    and present: "\<exists>snap\<in>set (snapshots w commits). contains_identity w I snap"
  shows "\<exists>events_by_id lg d.
           extract_all_events w None None = Inr (events_by_id, lg)
         \<and> filter (\<lambda>kv. fst kv = I) events_by_id = [(I, d)]
         \<and> JObj d = last (filter (has_identity w I)
                       (last (filter (contains_identity w I) (snapshots w commits))))"
proof -
  from merge_commits_total[OF records] obtain m lg
    where mc: "merge_commits w [] [] commits = Inr (m, lg)" by blast
  with commits have run: "extract_all_events w None None = Inr (m, lg)"
    by (simp add: extract_all_events_def)
  from merge_commits_concat[OF mc]
  have me: "merge_events w [] (concat (snapshots w commits)) = Inr m" .
  from present have ex: "\<exists>xs\<in>set (snapshots w commits). \<exists>x\<in>set xs. has_identity w I x"
    by (simp add: contains_identity_def)
  then have "contains_identity w I (concat (snapshots w commits))"
    by (auto simp: contains_identity_def)
  from merge_events_last[OF me this nonempty] obtain d
    where get: "dict_get m I = Some d"
      and lst: "last (filter (has_identity w I) (concat (snapshots w commits))) = JObj d"
    by blast
  have cd: "contains_identity w I = (\<lambda>xs. \<exists>x\<in>set xs. has_identity w I x)"
    by (rule ext) (simp add: contains_identity_def)
  from last_filter_concat[OF ex] lst
  have "JObj d = last (filter (has_identity w I)
                   (last (filter (contains_identity w I) (snapshots w commits))))"
    by (simp add: cd)
  moreover from merge_events_distinct[OF me] have "distinct (map fst m)" by simp
  from distinct_filter_key[OF this get] have "filter (\<lambda>kv. fst kv = I) m = [(I, d)]" .
  ultimately show ?thesis using run by blast
qed

text \<open>The scenario of three snapshots: the first introduces \<open>123\<close> with name A, the
  second omits it, the third has it with name B.\<close>

theorem latest_snapshot_wins_witness:
  "get_all_commits demo_world = Inr [(''c1'', ''d1''), (''c2'', ''d2''), (''c3'', ''d3'')]
   \<and> record_history demo_world [(''c1'', ''d1''), (''c2'', ''d2''), (''c3'', ''d3'')]
   \<and> snapshots demo_world [(''c1'', ''d1''), (''c2'', ''d2''), (''c3'', ''d3'')]
       = [[JObj ev_123_A, JObj ev_7], [JObj ev_7], [JObj ev_123_B, JObj ev_7]]
   \<and> (\<exists>events_by_id lg.
         extract_all_events demo_world None None = Inr (events_by_id, lg)
       \<and> filter (\<lambda>kv. fst kv = ''123'') events_by_id = [(''123'', ev_123_B)])"
proof -
  let ?cs = "[(''c1'', ''d1''), (''c2'', ''d2''), (''c3'', ''d3'')]"
  have h1: "get_all_commits demo_world = Inr ?cs" by code_simp
  have h2: "record_history demo_world ?cs" by code_simp
  have h3: "''123'' \<noteq> []" by simp
  have sn: "snapshots demo_world ?cs = [[JObj ev_123_A, JObj ev_7], [JObj ev_7], [JObj ev_123_B, JObj ev_7]]"
    by code_simp
  have h4: "\<exists>snap\<in>set (snapshots demo_world ?cs). contains_identity demo_world ''123'' snap"
    by code_simp
  have l: "last (filter (has_identity demo_world ''123'')
             (last (filter (contains_identity demo_world ''123'') (snapshots demo_world ?cs))))
           = JObj ev_123_B"
    by code_simp
  from latest_snapshot_wins[OF h1 h2 h3 h4] l h1 h2 sn show ?thesis by auto
qed

section \<open>Coordinates (C2)\<close>

text \<open>
  Claim C2. For a record whose location holds a coordinate string: when the string has
  the form \<^verbatim>\<open>"<float>,<float>"\<close> (exactly one comma, both sides parse after stripping) and
  the latitude is in [55, 70] and the longitude in [10, 25], \<open>flatten_event_for_export\<close>
  returns and sets \<^verbatim>\<open>latitude\<close> and \<^verbatim>\<open>longitude\<close> to exactly the parsed values; for every
  other string it returns and sets both to \<^verbatim>\<open>None\<close>. And whatever the record, a
  flattened record has either both coordinates \<^verbatim>\<open>None\<close>, or both present and in bounds.
\<close>

theorem coordinates_parsed_or_null:
  "(\<forall>location s. dict_get event ''location'' = Some (JObj location)
        \<and> dict_get location ''gps'' = Some (JStr s) \<longrightarrow>
      (\<exists>flat lg. flatten_event_for_export w event = Inr (flat, lg)
         \<and> (case gps_form w s of
              Some (lat, lon) \<Rightarrow>
                if in_bounds lat lon
                then dict_get flat ''latitude'' = Some (JFloat lat)
                   \<and> dict_get flat ''longitude'' = Some (JFloat lon)
                else dict_get flat ''latitude'' = Some JNull
                   \<and> dict_get flat ''longitude'' = Some JNull
            | None \<Rightarrow>
                dict_get flat ''latitude'' = Some JNull
              \<and> dict_get flat ''longitude'' = Some JNull)))
   \<and> (\<forall>flat lg. flatten_event_for_export w event = Inr (flat, lg) \<longrightarrow>
        (dict_get flat ''latitude'' = Some JNull \<and> dict_get flat ''longitude'' = Some JNull)
      \<or> (\<exists>lat lon. dict_get flat ''latitude'' = Some (JFloat lat)
            \<and> dict_get flat ''longitude'' = Some (JFloat lon) \<and> in_bounds lat lon))"
proof (intro conjI allI impI)
  fix location s
  assume h: "dict_get event ''location'' = Some (JObj location)
        \<and> dict_get location ''gps'' = Some (JStr s)"
  then have loc: "get_default event ''location'' (JObj []) = JObj location"
    and gps: "get_default location ''gps'' (JStr []) = JStr s"
    by (simp_all add: get_default_def)
  let ?i = "py_str w (get_default event ''id'' (JStr []))"
  from gps_columns_str[of w ?i s] obtain lat lon lg
    where g: "gps_columns w ?i (JStr s) = Inr (lat, lon, lg)"
      and v: "case gps_form w s of
                Some (a, b) \<Rightarrow>
                  if in_bounds a b then lat = JFloat a \<and> lon = JFloat b
                  else lat = JNull \<and> lon = JNull
              | None \<Rightarrow> lat = JNull \<and> lon = JNull"
    by (auto split: option.splits if_splits)
  from g gps have "gps_columns w ?i (get_default location ''gps'' (JStr [])) = Inr (lat, lon, lg)"
    by simp
  from flatten_location[OF loc this] coordinates_of_result
  obtain flat where run: "flatten_event_for_export w event = Inr (flat, lg)"
    and c: "dict_get flat ''latitude'' = Some lat \<and> dict_get flat ''longitude'' = Some lon"
    by blast
  from v c have "case gps_form w s of
              Some (lat, lon) \<Rightarrow>
                if in_bounds lat lon
                then dict_get flat ''latitude'' = Some (JFloat lat)
                   \<and> dict_get flat ''longitude'' = Some (JFloat lon)
                else dict_get flat ''latitude'' = Some JNull
                   \<and> dict_get flat ''longitude'' = Some JNull
            | None \<Rightarrow>
                dict_get flat ''latitude'' = Some JNull
              \<and> dict_get flat ''longitude'' = Some JNull"
    by (auto split: option.splits if_splits)
  with run show "\<exists>flat lg. flatten_event_for_export w event = Inr (flat, lg)
         \<and> (case gps_form w s of
              Some (lat, lon) \<Rightarrow>
                if in_bounds lat lon
                then dict_get flat ''latitude'' = Some (JFloat lat)
                   \<and> dict_get flat ''longitude'' = Some (JFloat lon)
                else dict_get flat ''latitude'' = Some JNull
                   \<and> dict_get flat ''longitude'' = Some JNull
            | None \<Rightarrow>
                dict_get flat ''latitude'' = Some JNull
              \<and> dict_get flat ''longitude'' = Some JNull)"
    by blast
next
  fix flat lg
  assume r: "flatten_event_for_export w event = Inr (flat, lg)"
  from flatten_Inr_shape[OF r] obtain location lat lon
    where g: "gps_columns w (py_str w (get_default event ''id'' (JStr [])))
               (get_default location ''gps'' (JStr [])) = Inr (lat, lon, lg)"
      and f: "flat = add_html_fields event (set_coordinates lat lon
               (dict_set ''location_name'' (get_default location ''name'' (JStr []))
                  (flattened_base w event)))"
    by blast
  from f have "dict_get flat ''latitude'' = Some lat \<and> dict_get flat ''longitude'' = Some lon"
    by (simp add: coordinates_of_result)
  with gps_columns_Inr[OF g]
  show "(dict_get flat ''latitude'' = Some JNull \<and> dict_get flat ''longitude'' = Some JNull)
      \<or> (\<exists>lat lon. dict_get flat ''latitude'' = Some (JFloat lat)
            \<and> dict_get flat ''longitude'' = Some (JFloat lon) \<and> in_bounds lat lon)"
    by auto
qed

text \<open>The string \<^verbatim>\<open>62.5,17.25\<close> gives both values; \<^verbatim>\<open>62.5,200.0\<close> has its longitude out of
  bounds and gives two \<^verbatim>\<open>None\<close>.\<close>

theorem coordinates_parsed_or_null_witness:
  "dict_get ev_123_A ''location'' = Some (JObj [(''name'', JStr ''Sundsvall''), (''gps'', JStr ''62.5,17.25'')])
   \<and> dict_get [(''name'', JStr ''Sundsvall''), (''gps'', JStr ''62.5,17.25'')] ''gps'' = Some (JStr ''62.5,17.25'')
   \<and> gps_form demo_world ''62.5,17.25'' = Some (Finite 62.5, Finite 17.25)
   \<and> in_bounds (Finite 62.5) (Finite 17.25)
   \<and> (\<exists>flat lg. flatten_event_for_export demo_world ev_123_A = Inr (flat, lg)
         \<and> dict_get flat ''latitude'' = Some (JFloat (Finite 62.5))
         \<and> dict_get flat ''longitude'' = Some (JFloat (Finite 17.25)))
   \<and> dict_get ev_7 ''location'' = Some (JObj [(''name'', JStr ''Nowhere''), (''gps'', JStr ''62.5,200.0'')])
   \<and> dict_get [(''name'', JStr ''Nowhere''), (''gps'', JStr ''62.5,200.0'')] ''gps'' = Some (JStr ''62.5,200.0'')
   \<and> gps_form demo_world ''62.5,200.0'' = Some (Finite 62.5, Finite 200)
   \<and> \<not> in_bounds (Finite 62.5) (Finite 200)
   \<and> (\<exists>flat lg. flatten_event_for_export demo_world ev_7 = Inr (flat, lg)
         \<and> dict_get flat ''latitude'' = Some JNull
         \<and> dict_get flat ''longitude'' = Some JNull)"
proof -
  let ?la = "[(''name'', JStr ''Sundsvall''), (''gps'', JStr ''62.5,17.25'')]"
  let ?lb = "[(''name'', JStr ''Nowhere''), (''gps'', JStr ''62.5,200.0'')]"
  have a1: "dict_get ev_123_A ''location'' = Some (JObj ?la)" by code_simp
  have a2: "dict_get ?la ''gps'' = Some (JStr ''62.5,17.25'')" by code_simp
  have a3: "gps_form demo_world ''62.5,17.25'' = Some (Finite 62.5, Finite 17.25)" by code_simp
  have a4: "in_bounds (Finite 62.5) (Finite 17.25)" by (simp add: in_bounds_def)
  have b1: "dict_get ev_7 ''location'' = Some (JObj ?lb)" by code_simp
  have b2: "dict_get ?lb ''gps'' = Some (JStr ''62.5,200.0'')" by code_simp
  have b3: "gps_form demo_world ''62.5,200.0'' = Some (Finite 62.5, Finite 200)" by code_simp
  have b4: "\<not> in_bounds (Finite 62.5) (Finite 200)" by (simp add: in_bounds_def)
  from coordinates_parsed_or_null[of ev_123_A demo_world] a1 a2
  have "\<exists>flat lg. flatten_event_for_export demo_world ev_123_A = Inr (flat, lg)
         \<and> (case gps_form demo_world ''62.5,17.25'' of
              Some (lat, lon) \<Rightarrow>
                if in_bounds lat lon
                then dict_get flat ''latitude'' = Some (JFloat lat)
                   \<and> dict_get flat ''longitude'' = Some (JFloat lon)
                else dict_get flat ''latitude'' = Some JNull
                   \<and> dict_get flat ''longitude'' = Some JNull
            | None \<Rightarrow>
                dict_get flat ''latitude'' = Some JNull
              \<and> dict_get flat ''longitude'' = Some JNull)"
    by blast
  with a3 a4 have A: "\<exists>flat lg. flatten_event_for_export demo_world ev_123_A = Inr (flat, lg)
         \<and> dict_get flat ''latitude'' = Some (JFloat (Finite 62.5))
         \<and> dict_get flat ''longitude'' = Some (JFloat (Finite 17.25))"
    by simp
  from coordinates_parsed_or_null[of ev_7 demo_world] b1 b2
  have "\<exists>flat lg. flatten_event_for_export demo_world ev_7 = Inr (flat, lg)
         \<and> (case gps_form demo_world ''62.5,200.0'' of
              Some (lat, lon) \<Rightarrow>
                if in_bounds lat lon
                then dict_get flat ''latitude'' = Some (JFloat lat)
                   \<and> dict_get flat ''longitude'' = Some (JFloat lon)
                else dict_get flat ''latitude'' = Some JNull
                   \<and> dict_get flat ''longitude'' = Some JNull
            | None \<Rightarrow>
                dict_get flat ''latitude'' = Some JNull
              \<and> dict_get flat ''longitude'' = Some JNull)"
    by blast
  with b3 b4 have B: "\<exists>flat lg. flatten_event_for_export demo_world ev_7 = Inr (flat, lg)
         \<and> dict_get flat ''latitude'' = Some JNull
         \<and> dict_get flat ''longitude'' = Some JNull"
    by simp
  from a1 a2 a3 a4 A b1 b2 b3 b4 B show ?thesis by blast
qed

section \<open>Narrative fields are all or nothing (C3)\<close>

text \<open>
  What holds of the pass: when for every record the existence check answers and the
  extraction raises nothing but \<^verbatim>\<open>Exception\<close>s, \<open>enrich_with_html\<close> returns, a record whose
  document is missing or whose extraction raises ends with \<^verbatim>\<open>html_available = False\<close> and
  the five narrative fields \<^verbatim>\<open>None\<close>, and a record whose extraction succeeds ends with
  \<^verbatim>\<open>html_available = True\<close>.
\<close>

lemma enrichment_when_checks_return:
  assumes "raises_exceptions_only w html_dir events"
  shows "\<exists>events' lg. enrich_with_html w events html_dir = Inr (events', lg)
           \<and> length events' = length events
           \<and> (\<forall>i<length events.
                fst (events' ! i) = fst (events ! i)
              \<and> (if document_ok w html_dir (fst (events ! i))
                 then dict_get (snd (events' ! i)) ''html_available'' = Some (JBool True)
                 else dict_get (snd (events' ! i)) ''html_available'' = Some (JBool False)
                    \<and> narrative_null (snd (events' ! i))))
           \<and> (\<forall>kv\<in>set events'.
                dict_get (snd kv) ''html_available'' = Some (JBool False) \<longrightarrow>
                narrative_null (snd kv))"
proof -
  from enrich_with_html_total[OF assms] obtain events' lg
    where run: "enrich_with_html w events html_dir = Inr (events', lg)" by blast
  from enrich_with_html_all2[OF run]
  have len: "length events = length events'"
    and nth: "\<And>i. i < length events \<Longrightarrow> fst (events' ! i) = fst (events ! i)
        \<and> (\<exists>l. enrich_event w html_dir (fst (events ! i)) (snd (events ! i)) = Inr (snd (events' ! i), l))"
    by (auto simp: list_all2_conv_all_nth)
  have each: "\<And>i. i < length events \<Longrightarrow>
      fst (events' ! i) = fst (events ! i)
      \<and> (if document_ok w html_dir (fst (events ! i))
         then dict_get (snd (events' ! i)) ''html_available'' = Some (JBool True)
         else dict_get (snd (events' ! i)) ''html_available'' = Some (JBool False)
            \<and> narrative_null (snd (events' ! i)))"
  proof -
    fix i assume i: "i < length events"
    from nth[OF i] obtain l where f: "fst (events' ! i) = fst (events ! i)"
      and e: "enrich_event w html_dir (fst (events ! i)) (snd (events ! i)) = Inr (snd (events' ! i), l)"
      by blast
    from enrich_event_cases[OF e] f show "fst (events' ! i) = fst (events ! i)
      \<and> (if document_ok w html_dir (fst (events ! i))
         then dict_get (snd (events' ! i)) ''html_available'' = Some (JBool True)
         else dict_get (snd (events' ! i)) ''html_available'' = Some (JBool False)
            \<and> narrative_null (snd (events' ! i)))"
      by auto
  qed
  have mix: "\<forall>kv\<in>set events'.
                dict_get (snd kv) ''html_available'' = Some (JBool False) \<longrightarrow>
                narrative_null (snd kv)"
  proof
    fix kv assume "kv \<in> set events'"
    then obtain i where i: "i < length events'" and kv: "kv = events' ! i"
      by (auto simp: in_set_conv_nth)
    from i len have "i < length events" by simp
    from each[OF this] kv show "dict_get (snd kv) ''html_available'' = Some (JBool False) \<longrightarrow>
                narrative_null (snd kv)"
      by (auto split: if_splits)
  qed
  from run len each mix show ?thesis by auto
qed

text \<open>Three records: \<open>123\<close> has a well-formed document, the document of \<open>7\<close> lacks the
  content container, \<open>9\<close> has no document.\<close>

lemma enrichment_when_checks_return_example:
  "raises_exceptions_only demo_world ''html'' [(''123'', ev_123_B), (''7'', ev_7), (''9'', ev_9)]
   \<and> document_ok demo_world ''html'' ''123''
   \<and> \<not> document_ok demo_world ''html'' ''7''
   \<and> \<not> document_ok demo_world ''html'' ''9''
   \<and> (\<exists>events' lg.
         enrich_with_html demo_world [(''123'', ev_123_B), (''7'', ev_7), (''9'', ev_9)] ''html''
           = Inr (events', lg)
       \<and> length events' = 3
       \<and> dict_get (snd (events' ! 0)) ''html_available'' = Some (JBool True)
       \<and> dict_get (snd (events' ! 1)) ''html_available'' = Some (JBool False)
       \<and> narrative_null (snd (events' ! 1))
       \<and> dict_get (snd (events' ! 2)) ''html_available'' = Some (JBool False)
       \<and> narrative_null (snd (events' ! 2)))"
proof -
  let ?evs = "[(''123'', ev_123_B), (''7'', ev_7), (''9'', ev_9)]"
  have h: "raises_exceptions_only demo_world ''html'' ?evs" by code_simp
  have d1: "document_ok demo_world ''html'' ''123''" by code_simp
  have d2: "\<not> document_ok demo_world ''html'' ''7''" by code_simp
  have d3: "\<not> document_ok demo_world ''html'' ''9''" by code_simp
  from enrichment_when_checks_return[OF h] obtain events' lg
    where run: "enrich_with_html demo_world ?evs ''html'' = Inr (events', lg)"
      and len: "length events' = length ?evs"
      and each: "\<forall>i<length ?evs.
                fst (events' ! i) = fst (?evs ! i)
              \<and> (if document_ok demo_world ''html'' (fst (?evs ! i))
                 then dict_get (snd (events' ! i)) ''html_available'' = Some (JBool True)
                 else dict_get (snd (events' ! i)) ''html_available'' = Some (JBool False)
                    \<and> narrative_null (snd (events' ! i)))"
    by blast
  from each have e0: "if document_ok demo_world ''html'' (fst (?evs ! 0))
                 then dict_get (snd (events' ! 0)) ''html_available'' = Some (JBool True)
                 else dict_get (snd (events' ! 0)) ''html_available'' = Some (JBool False)
                    \<and> narrative_null (snd (events' ! 0))"
    by simp
  from each have e1: "if document_ok demo_world ''html'' (fst (?evs ! 1))
                 then dict_get (snd (events' ! 1)) ''html_available'' = Some (JBool True)
                 else dict_get (snd (events' ! 1)) ''html_available'' = Some (JBool False)
                    \<and> narrative_null (snd (events' ! 1))"
    by simp
  have "(2::nat) < length ?evs" by simp
  with each have e2: "if document_ok demo_world ''html'' (fst (?evs ! 2))
                 then dict_get (snd (events' ! 2)) ''html_available'' = Some (JBool True)
                 else dict_get (snd (events' ! 2)) ''html_available'' = Some (JBool False)
                    \<and> narrative_null (snd (events' ! 2))"
    by blast
  from e0 d1 have r0: "dict_get (snd (events' ! 0)) ''html_available'' = Some (JBool True)" by simp
  from e1 d2 have r1: "dict_get (snd (events' ! 1)) ''html_available'' = Some (JBool False)
       \<and> narrative_null (snd (events' ! 1))" by simp
  have n2: "[(''123'', ev_123_B), (''7'', ev_7), (''9'', ev_9)] ! 2 = (''9'', ev_9)" by code_simp
  from e2 d3 n2 have r2: "dict_get (snd (events' ! 2)) ''html_available'' = Some (JBool False)
       \<and> narrative_null (snd (events' ! 2))" by simp
  from len have l3: "length events' = 3" by simp
  from h d1 d2 d3 run l3 r0 r1 r2 show ?thesis by blast
qed

text \<open>
  Claim C3 says that every record whose document is missing ends with
  \<^verbatim>\<open>html_available = False\<close> and the five narrative fields \<^verbatim>\<open>None\<close>. The test
  \<^verbatim>\<open>html_path.exists()\<close> stands before the \<^verbatim>\<open>try\<close>, and \<^verbatim>\<open>Path.exists()\<close> raises the
  \<^verbatim>\<open>OSError\<close> of \<^verbatim>\<open>stat\<close> for a name the file system does not take. The record of commit
  \<open>c9\<close> has an identity of 256 characters, so the name of its document is longer than
  the 255 characters of the file system and the document is missing: the record does not
  end with \<^verbatim>\<open>html_available = False\<close>, the pass and the run end with \<^verbatim>\<open>OSError\<close>, where the
  run without enrichment returns.
\<close>

theorem long_document_name_aborts_enrichment:
  "extract_events_from_commit demo_world ''c9'' = Inr ([JObj ev_long], [])
   \<and> event_identity demo_world ev_long = replicate 256 CHR ''a''
   \<and> path_exists demo_world (''html'', replicate 256 CHR ''a'' @ ''.html'') = Inl OSError
   \<and> enrich_event demo_world ''html'' (replicate 256 CHR ''a'') ev_long = Inl OSError
   \<and> enrich_with_html demo_world [(replicate 256 CHR ''a'', ev_long)] ''html'' = Inl OSError
   \<and> main (demo_history ''c9|d9'') (demo_args True None None) = Inl OSError
   \<and> returns (main (demo_history ''c9|d9'') (demo_args False None None))"
  by code_simp

section \<open>Snapshots that do not parse (C4)\<close>

text \<open>
  What holds of the parser: when the content was fetched and \<^verbatim>\<open>json.loads\<close> raises
  \<^verbatim>\<open>JSONDecodeError\<close> on it, or parses it to a value that is not a list,
  \<open>extract_events_from_commit\<close> returns the empty list; a content that parses to a list is
  returned as it is.
\<close>

lemma decode_error_or_non_list_yields_nothing:
  assumes fetched: "git_show w commit_sha = Inr content"
  shows "(json_loads w content = Inl JSONDecodeError \<longrightarrow>
            extract_events_from_commit w commit_sha = Inr ([], [WarnInvalidJSON (take 8 commit_sha)]))
       \<and> (\<forall>v. json_loads w content = Inr v \<and> \<not> is_sequence v \<longrightarrow>
            extract_events_from_commit w commit_sha = Inr ([], []))
       \<and> (\<forall>evs. json_loads w content = Inr (JArr evs) \<longrightarrow>
            extract_events_from_commit w commit_sha = Inr (evs, []))"
proof (intro conjI allI impI)
  assume "json_loads w content = Inl JSONDecodeError"
  with fetched show "extract_events_from_commit w commit_sha = Inr ([], [WarnInvalidJSON (take 8 commit_sha)])"
    by (simp add: extract_events_from_commit_def)
next
  fix v
  assume "json_loads w content = Inr v \<and> \<not> is_sequence v"
  with fetched show "extract_events_from_commit w commit_sha = Inr ([], [])"
    by (cases v) (simp_all add: extract_events_from_commit_def is_sequence_def)
next
  fix evs
  assume "json_loads w content = Inr (JArr evs)"
  with fetched show "extract_events_from_commit w commit_sha = Inr (evs, [])"
    by (simp add: extract_events_from_commit_def)
qed

text \<open>A file holding one opening bracket, an empty file, a file holding an object, and a
  well-formed one.\<close>

lemma decode_error_or_non_list_yields_nothing_example:
  "git_show demo_world ''c5'' = Inr ''['' \<and> json_loads demo_world ''['' = Inl JSONDecodeError
   \<and> extract_events_from_commit demo_world ''c5'' = Inr ([], [WarnInvalidJSON ''c5''])
   \<and> git_show demo_world ''c0'' = Inr [] \<and> json_loads demo_world [] = Inl JSONDecodeError
   \<and> extract_events_from_commit demo_world ''c0'' = Inr ([], [WarnInvalidJSON ''c0''])
   \<and> git_show demo_world ''c6'' = Inr ''{}'' \<and> json_loads demo_world ''{}'' = Inr (JObj [])
   \<and> \<not> is_sequence (JObj [])
   \<and> extract_events_from_commit demo_world ''c6'' = Inr ([], [])
   \<and> extract_events_from_commit demo_world ''c2'' = Inr ([JObj ev_7], [])"
proof -
  have f5: "git_show demo_world ''c5'' = Inr ''[''" by code_simp
  have j5: "json_loads demo_world ''['' = Inl JSONDecodeError" by code_simp
  have f0: "git_show demo_world ''c0'' = Inr []" by code_simp
  have j0: "json_loads demo_world [] = Inl JSONDecodeError" by code_simp
  have f6: "git_show demo_world ''c6'' = Inr ''{}''" by code_simp
  have j6: "json_loads demo_world ''{}'' = Inr (JObj [])" by code_simp
  have n6: "\<not> is_sequence (JObj [])" by code_simp
  have f2: "git_show demo_world ''c2'' = Inr ''S2''" by code_simp
  have j2: "json_loads demo_world ''S2'' = Inr (JArr [JObj ev_7])" by code_simp
  from decode_error_or_non_list_yields_nothing[OF f5] j5
  have 5: "extract_events_from_commit demo_world ''c5'' = Inr ([], [WarnInvalidJSON ''c5''])" by simp
  from decode_error_or_non_list_yields_nothing[OF f0] j0
  have 0: "extract_events_from_commit demo_world ''c0'' = Inr ([], [WarnInvalidJSON ''c0''])" by simp
  from decode_error_or_non_list_yields_nothing[OF f6] j6 n6
  have 6: "extract_events_from_commit demo_world ''c6'' = Inr ([], [])" by blast
  from decode_error_or_non_list_yields_nothing[OF f2] j2
  have 2: "extract_events_from_commit demo_world ''c2'' = Inr ([JObj ev_7], [])" by blast
  from f5 j5 5 f0 j0 0 f6 j6 n6 6 2 show ?thesis by blast
qed

text \<open>
  Claim C4 says that for every content that does not parse, or that parses to something
  that is no list, \<open>extract_events_from_commit\<close> returns the empty list and does not
  raise. The function catches \<^verbatim>\<open>CalledProcessError\<close> and \<^verbatim>\<open>JSONDecodeError\<close> and nothing
  else. A file of opening brackets only (\<open>c10\<close>) makes \<^verbatim>\<open>json.loads\<close> raise
  \<^verbatim>\<open>RecursionError\<close>; a file cut off inside a multi-byte character (\<open>c11\<close>) makes
  \<^verbatim>\<open>subprocess.run\<close> raise \<^verbatim>\<open>UnicodeDecodeError\<close>; an integer of 5000 digits (\<open>c12\<close>), which
  is no list, makes \<^verbatim>\<open>json.loads\<close> raise \<^verbatim>\<open>ValueError\<close>. In each case the function raises,
  and the run over a history with such a commit ends with the exception.
\<close>

theorem unparsable_content_raises:
  "git_show demo_world ''c10'' = Inr ''DEEP''
   \<and> json_loads demo_world ''DEEP'' = Inl RecursionError
   \<and> extract_events_from_commit demo_world ''c10'' = Inl RecursionError
   \<and> git_show demo_world ''c11'' = Inl UnicodeDecodeError
   \<and> extract_events_from_commit demo_world ''c11'' = Inl UnicodeDecodeError
   \<and> git_show demo_world ''c12'' = Inr ''BIGINT''
   \<and> json_loads demo_world ''BIGINT'' = Inl ValueError
   \<and> extract_events_from_commit demo_world ''c12'' = Inl ValueError
   \<and> main (demo_history (''c1|d1'' @ nl @ ''c10|d10'')) (demo_args False None None)
       = Inl RecursionError
   \<and> returns (main (demo_history ''c1|d1'') (demo_args False None None))"
  by code_simp

section \<open>The date filter on aware timestamps (C5)\<close>

text \<open>
  Claim C5 says that, with bounds built from calendar dates, every record whose datetime
  parses as a timezone-aware timestamp within the bounds is retained. The bounds \<^verbatim>\<open>main\<close>
  builds from \<^verbatim>\<open>--start-date 2024-01-01 --end-date 2024-12-31\<close> are naive datetimes, and
  \<^verbatim>\<open>event_dt < start_date\<close> on an aware \<^verbatim>\<open>event_dt\<close> raises \<^verbatim>\<open>TypeError\<close>, which the
  \<^verbatim>\<open>except ValueError\<close> of the filter does not catch. In the example world record 123 is
  stamped \<^verbatim>\<open>2024-06-15 12:00:00+02:00\<close>, inside the year: the run does not retain it, it ends
  with the exception. (For naive timestamps the filter is inclusive at both ends: the
  history \<open>c8\<close> of the section on C7 keeps the records stamped at exactly \<^verbatim>\<open>00:00:00\<close> of the
  first and \<^verbatim>\<open>23:59:59\<close> of the last day, and drops those one millisecond outside.)
\<close>

theorem naive_bounds_reject_aware_timestamps:
  "start_bound demo_world ''2024-01-01'' = Inr start_2024
   \<and> end_bound demo_world ''2024-12-31'' = Inr end_2024
   \<and> fromisoformat demo_world ''2024-06-15 12:00:00+02:00''
       = Some \<lparr>year = 2024, month = 6, day = 15, hour = 12, minute = 0, second = 0,
                microsecond = 0, utcoffset = Some 7200000000\<rparr>
   \<and> in_date_range demo_world (Some start_2024) (Some end_2024)
        (JStr ''2024-06-15 12:00:00+02:00'') = Inl TypeError
   \<and> main demo_world (demo_args False (Some ''2024-01-01'') (Some ''2024-12-31''))
       = Inl TypeError"
  by code_simp

section \<open>A snapshot entry that is not a record (C6)\<close>

text \<open>
  Claim C6 says that no bad snapshot aborts the run. A snapshot whose fetch fails with
  \<^verbatim>\<open>CalledProcessError\<close>, whose content fails with \<^verbatim>\<open>JSONDecodeError\<close> or is no list, yields
  no entries, and an entry without a usable identity is skipped. But a list entry that is
  not a JSON object has no \<^verbatim>\<open>get\<close>: \<^verbatim>\<open>event.get('id', '')\<close> raises \<^verbatim>\<open>AttributeError\<close>, which
  nothing catches. Commit \<open>c4\<close> holds \<^verbatim>\<open>[1]\<close>; the run over
  the history \<open>c1\<close>, \<open>c4\<close> ends with the exception, where the run over \<open>c1\<close> alone returns.
\<close>

theorem non_record_entry_aborts_run:
  "extract_events_from_commit demo_world ''c4'' = Inr ([JInt 1], [])
   \<and> merge_event demo_world [(''123'', ev_123_A), (''7'', ev_7)] (JInt 1) = Inl AttributeError
   \<and> main (demo_history (''c1|d1'' @ nl @ ''c4|d4'')) (demo_args False None None)
       = Inl AttributeError
   \<and> returns (main (demo_history ''c1|d1'') (demo_args False None None))"
  by code_simp

section \<open>Records without a usable datetime (C7)\<close>

text \<open>
  Claim C7 says that, with the date filter active, every merged record whose datetime is
  missing or fails to parse is dropped with a warning. The filter skips a record whose
  datetime is missing or empty with a plain \<^verbatim>\<open>continue\<close>, before the \<^verbatim>\<open>try\<close>: it is dropped,
  but nothing is logged. In the history \<open>c8\<close>, record 6 has no datetime: it is not in the
  result, and the only warning is the one for record 5, whose datetime does not parse.
\<close>

theorem missing_datetime_dropped_without_warning:
  "merge_commits (demo_history ''c8|d8'') [] [] [(''c8'', ''d8'')]
     = Inr ([(''1'', ev_at 1 ''2024-01-01 00:00:00''),
             (''2'', ev_at 2 ''2024-12-31 23:59:59''),
             (''3'', ev_at 3 ''2024-12-31 23:59:59.001''),
             (''4'', ev_at 4 ''2023-12-31 23:59:59.999''),
             (''5'', ev_at 5 ''yesterday''),
             (''6'', [(''id'', JInt 6)])], [])
   \<and> missing_datetime (''6'', [(''id'', JInt 6)])
   \<and> extract_all_events (demo_history ''c8|d8'') (Some start_2024) (Some end_2024)
     = Inr ([(''1'', ev_at 1 ''2024-01-01 00:00:00''),
             (''2'', ev_at 2 ''2024-12-31 23:59:59'')],
            [WarnDatetimeParse ''5'' ''yesterday''])"
  by code_simp

text \<open>
  Claim C7, amended. With the date filter active and the run returning, every merged
  record whose datetime is missing or empty is dropped and no warning is logged for it;
  every merged record whose datetime is a non-empty string that does not parse is dropped
  and a warning naming it is logged. The filter logs nothing else.
\<close>

theorem unusable_datetime_dropped:
  assumes commits: "get_all_commits w = Inr commits"
    and merged: "merge_commits w [] [] commits = Inr (merged, lg0)"
    and active: "sd \<noteq> None \<or> ed \<noteq> None"
    and run: "extract_all_events w sd ed = Inr (result, lg)"
  shows "(\<forall>kv\<in>set merged. missing_datetime kv \<longrightarrow>
            fst kv \<notin> set (map fst result)
          \<and> (\<forall>s. WarnDatetimeParse (fst kv) s \<notin> set (drop (length lg0) lg)))
       \<and> (\<forall>kv\<in>set merged. unparsable w kv \<longrightarrow>
            fst kv \<notin> set (map fst result) \<and> datetime_warning w kv \<in> set lg)
       \<and> lg = lg0 @ map (datetime_warning w) (filter (unparsable w) merged)"
proof -
  from extract_all_events_cases[OF commits run] merged active
  have fe: "filter_events w sd ed merged [] lg0 = Inr (result, lg)" by auto
  from merge_commits_concat[OF merged]
  have "merge_events w [] (concat (snapshots w commits)) = Inr merged" .
  from merge_events_distinct[OF this] have d: "distinct (map fst merged)" by simp
  from filter_events_distinct[OF d fe]
  have res: "result = filter (kept w sd ed) merged"
    and log: "lg = lg0 @ map (datetime_warning w) (filter (unparsable w) merged)"
    by simp_all
  have miss: "\<forall>kv\<in>set merged. missing_datetime kv \<longrightarrow>
            fst kv \<notin> set (map fst result)
          \<and> (\<forall>s. WarnDatetimeParse (fst kv) s \<notin> set (drop (length lg0) lg))"
  proof (intro ballI impI conjI allI)
    fix kv assume kv: "kv \<in> set merged" and m: "missing_datetime kv"
    from m have nk: "\<not> kept w sd ed kv" by (simp add: kept_def missing_datetime_def)
    from dropped_key[of merged kv "kept w sd ed", OF d kv nk] res show "fst kv \<notin> set (map fst result)" by simp
    fix s
    show "WarnDatetimeParse (fst kv) s \<notin> set (drop (length lg0) lg)"
    proof
      assume "WarnDatetimeParse (fst kv) s \<in> set (drop (length lg0) lg)"
      with log obtain kv' where kv': "kv' \<in> set merged" and u: "unparsable w kv'"
        and eq: "datetime_warning w kv' = WarnDatetimeParse (fst kv) s"
        by auto
      from eq have "fst kv' = fst kv" by (simp add: datetime_warning_def)
      with d kv kv' have "kv' = kv" by (metis eq_key_imp_eq_value prod.collapse)
      with u m show False
        by (simp add: missing_datetime_def unparsable_iff[of w kv sd ed])
    qed
  qed
  have unp: "\<forall>kv\<in>set merged. unparsable w kv \<longrightarrow>
            fst kv \<notin> set (map fst result) \<and> datetime_warning w kv \<in> set lg"
  proof (intro ballI impI conjI)
    fix kv assume kv: "kv \<in> set merged" and u: "unparsable w kv"
    from u have nk: "\<not> kept w sd ed kv" by (simp add: kept_def unparsable_iff[of w kv sd ed])
    from dropped_key[of merged kv "kept w sd ed", OF d kv nk] res show "fst kv \<notin> set (map fst result)" by simp
    from kv u log show "datetime_warning w kv \<in> set lg" by simp
  qed
  from miss unp log show ?thesis by blast
qed

text \<open>In the history \<open>c8\<close>, with the bounds of the year 2024: record 6 is dropped without
  a warning, record 5 with one.\<close>

theorem unusable_datetime_dropped_witness:
  "get_all_commits (demo_history ''c8|d8'') = Inr [(''c8'', ''d8'')]
   \<and> missing_datetime (''6'', [(''id'', JInt 6)])
   \<and> unparsable (demo_history ''c8|d8'') (''5'', ev_at 5 ''yesterday'')
   \<and> (\<exists>result lg.
         extract_all_events (demo_history ''c8|d8'') (Some start_2024) (Some end_2024)
           = Inr (result, lg)
       \<and> ''6'' \<notin> set (map fst result)
       \<and> ''5'' \<notin> set (map fst result)
       \<and> (\<forall>s. WarnDatetimeParse ''6'' s \<notin> set lg)
       \<and> WarnDatetimeParse ''5'' ''yesterday'' \<in> set lg)"
proof -
  let ?w = "demo_history ''c8|d8''"
  let ?m = "[(''1'', ev_at 1 ''2024-01-01 00:00:00''),
             (''2'', ev_at 2 ''2024-12-31 23:59:59''),
             (''3'', ev_at 3 ''2024-12-31 23:59:59.001''),
             (''4'', ev_at 4 ''2023-12-31 23:59:59.999''),
             (''5'', ev_at 5 ''yesterday''),
             (''6'', [(''id'', JInt 6)])]"
  have h1: "get_all_commits ?w = Inr [(''c8'', ''d8'')]" by code_simp
  have h2: "merge_commits ?w [] [] [(''c8'', ''d8'')] = Inr (?m, [])" by code_simp
  have h3: "Some start_2024 \<noteq> None \<or> Some end_2024 \<noteq> None" by simp
  have r: "returns (extract_all_events ?w (Some start_2024) (Some end_2024))" by code_simp
  then obtain result lg
    where h4: "extract_all_events ?w (Some start_2024) (Some end_2024) = Inr (result, lg)"
    by (auto simp: returns_iff)
  have m6: "missing_datetime (''6'', [(''id'', JInt 6)])" by code_simp
  have u5: "unparsable ?w (''5'', ev_at 5 ''yesterday'')" by code_simp
  have w5: "datetime_warning ?w (''5'', ev_at 5 ''yesterday'') = WarnDatetimeParse ''5'' ''yesterday''"
    by code_simp
  have i6: "(''6'', [(''id'', JInt 6)]) \<in> set ?m" and i5: "(''5'', ev_at 5 ''yesterday'') \<in> set ?m"
    by simp_all
  note t = unusable_datetime_dropped[OF h1 h2 h3 h4]
  from t i6 m6 have a: "''6'' \<notin> set (map fst result)"
    and b: "\<forall>s. WarnDatetimeParse ''6'' s \<notin> set (drop (length ([]::log_entry list)) lg)"
    by force+
  from t i5 u5 w5 have c: "''5'' \<notin> set (map fst result)"
    and d: "WarnDatetimeParse ''5'' ''yesterday'' \<in> set lg"
    by force+
  from b have b': "\<forall>s. WarnDatetimeParse ''6'' s \<notin> set lg" by simp
  from h1 m6 u5 h4 a c b' d show ?thesis by blast
qed

section \<open>Identities in the merge (C8)\<close>

text \<open>
  Claim C8. The identity of a record is \<^verbatim>\<open>str\<close> of its \<^verbatim>\<open>id\<close> field, with the empty string
  for a missing field. A record whose identity is empty leaves the mapping as it is; a
  record whose identity is not empty is stored under it, replacing what was there, and no
  other key changes. So every binding of the merged mapping was there before or comes from
  an entry with that non-empty identity.
\<close>

theorem merge_keeps_usable_identities:
  "event_identity w d = py_str w (case dict_get d ''id'' of None \<Rightarrow> JStr [] | Some v \<Rightarrow> v)
   \<and> (\<not> has_key d ''id'' \<longrightarrow> event_identity w d = [])
   \<and> (event_identity w d = [] \<longrightarrow> merge_event w m (JObj d) = Inr m)
   \<and> (event_identity w d \<noteq> [] \<longrightarrow>
        (\<exists>m'. merge_event w m (JObj d) = Inr m'
            \<and> dict_get m' (event_identity w d) = Some d
            \<and> (\<forall>k. k \<noteq> event_identity w d \<longrightarrow> dict_get m' k = dict_get m k)))
   \<and> (\<forall>evs m' k r. merge_events w m evs = Inr m' \<and> (k, r) \<in> set m' \<longrightarrow>
        (k, r) \<in> set m \<or> (k \<noteq> [] \<and> JObj r \<in> set evs \<and> event_identity w r = k))"
proof (intro conjI)
  show "event_identity w d = py_str w (case dict_get d ''id'' of None \<Rightarrow> JStr [] | Some v \<Rightarrow> v)"
    by (simp add: event_identity_def get_default_def)
  show "\<not> has_key d ''id'' \<longrightarrow> event_identity w d = []"
    by (simp add: event_identity_def get_default_def has_key_def)
  show "event_identity w d = [] \<longrightarrow> merge_event w m (JObj d) = Inr m"
    by (simp add: merge_event_def)
  show "event_identity w d \<noteq> [] \<longrightarrow>
        (\<exists>m'. merge_event w m (JObj d) = Inr m'
            \<and> dict_get m' (event_identity w d) = Some d
            \<and> (\<forall>k. k \<noteq> event_identity w d \<longrightarrow> dict_get m' k = dict_get m k))"
    by (simp add: merge_event_def dict_get_dict_set)
  show "\<forall>evs m' k r. merge_events w m evs = Inr m' \<and> (k, r) \<in> set m' \<longrightarrow>
        (k, r) \<in> set m \<or> (k \<noteq> [] \<and> JObj r \<in> set evs \<and> event_identity w r = k)"
    using merge_events_origin by blast
qed

text \<open>A record without \<^verbatim>\<open>id\<close> and one with the empty \<^verbatim>\<open>id\<close> are dropped; a new version
  of \<open>123\<close> replaces the old one.\<close>

theorem merge_keeps_usable_identities_witness:
  "\<not> has_key ev_no_id ''id''
   \<and> event_identity demo_world ev_no_id = []
   \<and> event_identity demo_world ev_empty_id = []
   \<and> merge_event demo_world [(''7'', ev_7)] (JObj ev_no_id) = Inr [(''7'', ev_7)]
   \<and> merge_event demo_world [(''7'', ev_7)] (JObj ev_empty_id) = Inr [(''7'', ev_7)]
   \<and> event_identity demo_world ev_123_B = ''123''
   \<and> (\<exists>m'. merge_event demo_world [(''123'', ev_123_A), (''7'', ev_7)] (JObj ev_123_B) = Inr m'
          \<and> dict_get m' ''123'' = Some ev_123_B \<and> dict_get m' ''7'' = Some ev_7)
   \<and> merge_events demo_world [] [JObj ev_no_id, JObj ev_empty_id, JObj ev_9] = Inr [(''9'', ev_9)]"
proof -
  have a: "\<not> has_key ev_no_id ''id''" by code_simp
  have b: "event_identity demo_world ev_empty_id = []" by code_simp
  have c: "event_identity demo_world ev_123_B = ''123''" by code_simp
  have d: "dict_get [(''123'', ev_123_A), (''7'', ev_7)] ''7'' = Some ev_7" by code_simp
  have e: "merge_events demo_world [] [JObj ev_no_id, JObj ev_empty_id, JObj ev_9] = Inr [(''9'', ev_9)]"
    by code_simp
  have n: "''7'' \<noteq> ''123''" "''123'' \<noteq> []" by simp_all
  from merge_keeps_usable_identities[of demo_world ev_no_id "[(''7'', ev_7)]"] a
  have 1: "event_identity demo_world ev_no_id = []"
    and 2: "merge_event demo_world [(''7'', ev_7)] (JObj ev_no_id) = Inr [(''7'', ev_7)]"
    by blast+
  from merge_keeps_usable_identities[of demo_world ev_empty_id "[(''7'', ev_7)]"] b
  have 3: "merge_event demo_world [(''7'', ev_7)] (JObj ev_empty_id) = Inr [(''7'', ev_7)]"
    by blast
  from merge_keeps_usable_identities[of demo_world ev_123_B "[(''123'', ev_123_A), (''7'', ev_7)]"] c d n
  have 4: "\<exists>m'. merge_event demo_world [(''123'', ev_123_A), (''7'', ev_7)] (JObj ev_123_B) = Inr m'
          \<and> dict_get m' ''123'' = Some ev_123_B \<and> dict_get m' ''7'' = Some ev_7"
    by auto
  from a b c e 1 2 3 4 show ?thesis by blast
qed

section \<open>The exported columns follow the marker key (C9)\<close>

text \<open>
  Claim C9. A flattened record has the five narrative fields and the availability flag,
  with the values the record holds for them, when the record has the key
  \<^verbatim>\<open>html_available\<close>, and has none of the six when the record lacks the key. So every
  record a run with enrichment exports has the six columns; and when no snapshot entry
  carries the key, no record a run without enrichment exports has any of them.
\<close>

theorem html_columns_follow_marker:
  "(\<forall>event flat lg. flatten_event_for_export w event = Inr (flat, lg) \<longrightarrow>
      (if has_key event ''html_available''
       then has_html_columns flat
          \<and> (\<forall>k\<in>set narrative_fields. dict_get flat k = Some (get_none event k))
          \<and> dict_get flat ''html_available'' = dict_get event ''html_available''
       else no_html_columns flat))
   \<and> (\<forall>a flats lg. main w a = Inr (flats, lg) \<and> arg_include_html a \<longrightarrow>
        (\<forall>flat\<in>set flats. has_html_columns flat))
   \<and> (\<forall>a flats lg commits.
        main w a = Inr (flats, lg) \<and> \<not> arg_include_html a
        \<and> get_all_commits w = Inr commits
        \<and> (\<forall>snap\<in>set (snapshots w commits). \<forall>d. JObj d \<in> set snap \<longrightarrow>
              \<not> has_key d ''html_available'') \<longrightarrow>
        (\<forall>flat\<in>set flats. no_html_columns flat))"
proof (intro conjI allI impI)
  fix event flat lg
  assume r: "flatten_event_for_export w event = Inr (flat, lg)"
  from flatten_Inr_shape[OF r] obtain location lat lon
    where f: "flat = add_html_fields event (set_coordinates lat lon
               (dict_set ''location_name'' (get_default location ''name'' (JStr []))
                  (flattened_base w event)))"
    by blast
  show "if has_key event ''html_available''
       then has_html_columns flat
          \<and> (\<forall>k\<in>set narrative_fields. dict_get flat k = Some (get_none event k))
          \<and> dict_get flat ''html_available'' = dict_get event ''html_available''
       else no_html_columns flat"
  proof (cases "has_key event ''html_available''")
    case True
    with flatten_columns[OF r] have "has_html_columns flat" by simp
    moreover from True f have "\<forall>k\<in>set narrative_fields. dict_get flat k = Some (get_none event k)"
      by (simp add: dict_get_add_html_fields_narrative)
    moreover from True f have "dict_get flat ''html_available'' = dict_get event ''html_available''"
      by (simp add: dict_get_add_html_fields_flag)
    ultimately show ?thesis using True by simp
  next
    case False
    with flatten_columns[OF r] show ?thesis by simp
  qed
next
  fix a flats lg
  assume h: "main w a = Inr (flats, lg) \<and> arg_include_html a"
  from main_Inr[of w a flats lg] h obtain events_by_id events2 l2 l3
    where en: "enrich_with_html w events_by_id (arg_html_dir a) = Inr (events2, l2)"
      and fl: "flatten_all w (map snd events2) = Inr (flats, l3)"
    by auto
  show "\<forall>flat\<in>set flats. has_html_columns flat"
  proof
    fix flat assume "flat \<in> set flats"
    from flatten_all_member[OF fl this] obtain e l where e: "e \<in> set (map snd events2)"
      and r: "flatten_event_for_export w e = Inr (flat, l)" by blast
    from e obtain kv where "kv \<in> set events2" and "e = snd kv" by auto
    with enrich_with_html_marked[OF en] have "has_key e ''html_available''" by simp
    with flatten_columns[OF r] show "has_html_columns flat" by simp
  qed
next
  fix a flats lg commits
  assume h: "main w a = Inr (flats, lg) \<and> \<not> arg_include_html a
        \<and> get_all_commits w = Inr commits
        \<and> (\<forall>snap\<in>set (snapshots w commits). \<forall>d. JObj d \<in> set snap \<longrightarrow>
              \<not> has_key d ''html_available'')"
  from main_Inr[of w a flats lg] h obtain sd ed events_by_id l1 l3
    where ex: "extract_all_events w sd ed = Inr (events_by_id, l1)"
      and fl: "flatten_all w (map snd events_by_id) = Inr (flats, l3)"
    by auto
  from h have gc: "get_all_commits w = Inr commits" by simp
  show "\<forall>flat\<in>set flats. no_html_columns flat"
  proof
    fix flat assume "flat \<in> set flats"
    from flatten_all_member[OF fl this] obtain e l where e: "e \<in> set (map snd events_by_id)"
      and r: "flatten_event_for_export w e = Inr (flat, l)" by blast
    from e obtain k where "(k, e) \<in> set events_by_id" by auto
    from extract_all_events_origin[OF gc ex this] h have "\<not> has_key e ''html_available''" by blast
    with flatten_columns[OF r] show "no_html_columns flat" by simp
  qed
qed

text \<open>The run over the three snapshots, with and without enrichment, and a record that
  lacks the key.\<close>

theorem html_columns_follow_marker_witness:
  "(\<exists>flats lg.
      main demo_world \<lparr>arg_include_html = True, arg_html_dir = ''html'',
                        arg_start_date = None, arg_end_date = None\<rparr> = Inr (flats, lg)
    \<and> length flats = 2 \<and> list_all has_html_columns flats)
   \<and> (\<exists>flats lg.
      main demo_world \<lparr>arg_include_html = False, arg_html_dir = ''html'',
                        arg_start_date = None, arg_end_date = None\<rparr> = Inr (flats, lg)
    \<and> length flats = 2 \<and> list_all no_html_columns flats)
   \<and> (\<exists>flat lg. flatten_event_for_export demo_world ev_9 = Inr (flat, lg) \<and> no_html_columns flat)"
proof -
  let ?aT = "\<lparr>arg_include_html = True, arg_html_dir = ''html'',
              arg_start_date = None, arg_end_date = None\<rparr>"
  let ?aF = "\<lparr>arg_include_html = False, arg_html_dir = ''html'',
              arg_start_date = None, arg_end_date = None\<rparr>"
  let ?cs = "[(''c1'', ''d1''), (''c2'', ''d2''), (''c3'', ''d3'')]"
  have rT: "case main demo_world ?aT of Inr (flats, lg) \<Rightarrow> length flats = 2 | Inl e \<Rightarrow> False"
    by code_simp
  then obtain fT lT where mT: "main demo_world ?aT = Inr (fT, lT)" and nT: "length fT = 2"
    by (auto split: sum.splits)
  have rF: "case main demo_world ?aF of Inr (flats, lg) \<Rightarrow> length flats = 2 | Inl e \<Rightarrow> False"
    by code_simp
  then obtain fF lF where mF: "main demo_world ?aF = Inr (fF, lF)" and nF: "length fF = 2"
    by (auto split: sum.splits)
  have gc: "get_all_commits demo_world = Inr ?cs" by code_simp
  have sn: "snapshots demo_world ?cs
       = [[JObj ev_123_A, JObj ev_7], [JObj ev_7], [JObj ev_123_B, JObj ev_7]]"
    by code_simp
  have k1: "\<not> has_key ev_123_A ''html_available''" by code_simp
  have k2: "\<not> has_key ev_123_B ''html_available''" by code_simp
  have k3: "\<not> has_key ev_7 ''html_available''" by code_simp
  have k4: "\<not> has_key ev_9 ''html_available''" by code_simp
  have raw: "\<forall>snap\<in>set (snapshots demo_world ?cs). \<forall>d. JObj d \<in> set snap \<longrightarrow>
              \<not> has_key d ''html_available''"
    using k1 k2 k3 by (auto simp: sn)
  have incT: "arg_include_html ?aT" and incF: "\<not> arg_include_html ?aF" by simp_all
  from html_columns_follow_marker[of demo_world] mT incT
  have "\<forall>flat\<in>set fT. has_html_columns flat" by blast
  then have T: "list_all has_html_columns fT" by (simp add: list_all_iff)
  from html_columns_follow_marker[of demo_world] mF incF gc raw
  have "\<forall>flat\<in>set fF. no_html_columns flat" by blast
  then have F: "list_all no_html_columns fF" by (simp add: list_all_iff)
  have r9: "case flatten_event_for_export demo_world ev_9 of Inr x \<Rightarrow> True | Inl e \<Rightarrow> False"
    by code_simp
  then obtain f9 l9 where m9: "flatten_event_for_export demo_world ev_9 = Inr (f9, l9)"
    by (auto split: sum.splits)
  from html_columns_follow_marker[of demo_world] m9 k4
  have N: "no_html_columns f9" by (auto split: if_splits)
  from mT nT T mF nF F m9 N show ?thesis by blast
qed

section \<open>Enrichment keeps the identities (C10)\<close>

text \<open>
  Claim C10. The mapping \<open>enrich_with_html\<close> returns has the identities of its input, in
  the same order, and every record of it carries the key \<^verbatim>\<open>html_available\<close>, with the
  value \<^verbatim>\<open>True\<close> or \<^verbatim>\<open>False\<close>.
\<close>

theorem enrichment_keeps_identities:
  assumes "enrich_with_html w events html_dir = Inr (events', lg)"
  shows "map fst events' = map fst events
       \<and> (\<forall>kv\<in>set events'. has_key (snd kv) ''html_available''
            \<and> (dict_get (snd kv) ''html_available'' = Some (JBool True)
               \<or> dict_get (snd kv) ''html_available'' = Some (JBool False)))"
proof -
  from enrich_with_html_all2[OF assms]
  have len: "length events = length events'"
    and nth: "\<And>i. i < length events \<Longrightarrow> fst (events' ! i) = fst (events ! i)
        \<and> (\<exists>l. enrich_event w html_dir (fst (events ! i)) (snd (events ! i)) = Inr (snd (events' ! i), l))"
    by (auto simp: list_all2_conv_all_nth)
  from len nth have keys: "map fst events' = map fst events"
    by (auto intro: nth_equalityI)
  have "\<forall>kv\<in>set events'. has_key (snd kv) ''html_available''
            \<and> (dict_get (snd kv) ''html_available'' = Some (JBool True)
               \<or> dict_get (snd kv) ''html_available'' = Some (JBool False))"
  proof
    fix kv assume "kv \<in> set events'"
    then obtain i where i: "i < length events'" and kv: "kv = events' ! i"
      by (auto simp: in_set_conv_nth)
    from i len have "i < length events" by simp
    from nth[OF this] obtain l
      where "enrich_event w html_dir (fst (events ! i)) (snd (events ! i)) = Inr (snd (events' ! i), l)"
      by blast
    from enrich_event_cases[OF this] kv
    show "has_key (snd kv) ''html_available''
            \<and> (dict_get (snd kv) ''html_available'' = Some (JBool True)
               \<or> dict_get (snd kv) ''html_available'' = Some (JBool False))"
      by (auto simp: has_key_def)
  qed
  with keys show ?thesis by simp
qed

text \<open>The same three records keep their identities and all carry the key.\<close>

theorem enrichment_keeps_identities_witness:
  "\<exists>events' lg.
      enrich_with_html demo_world [(''123'', ev_123_B), (''7'', ev_7), (''9'', ev_9)] ''html''
        = Inr (events', lg)
    \<and> map fst events' = [''123'', ''7'', ''9'']
    \<and> list_all (\<lambda>kv. has_key (snd kv) ''html_available'') events'"
proof -
  let ?evs = "[(''123'', ev_123_B), (''7'', ev_7), (''9'', ev_9)]"
  have h: "raises_exceptions_only demo_world ''html'' ?evs" by code_simp
  from enrich_with_html_total[OF h] obtain events' lg
    where run: "enrich_with_html demo_world ?evs ''html'' = Inr (events', lg)" by blast
  from enrichment_keeps_identities[OF run]
  have "map fst events' = [''123'', ''7'', ''9'']"
    and "list_all (\<lambda>kv. has_key (snd kv) ''html_available'') events'"
    by (simp_all add: list_all_iff)
  with run show ?thesis by (intro exI conjI)
qed

end
